theory Spec2Isabelle
  imports Main "HOL-Library.Multiset"
begin

section \<open>JavaScript strings\<close>

text \<open>
  A JavaScript string is a sequence of 16-bit code units. The model uses \<open>string\<close>, a list
  of \<open>char\<close>, and reads each \<open>char\<close> as the code unit of the same number: the strings
  covered are those whose code units are below 256 (ASCII and Latin-1).
\<close>

definition isWhiteSpace :: "char \<Rightarrow> bool" where
  \<comment> \<open>\<open>\s\<close> of a regular expression and the characters \<open>trim()\<close> removes: TAB, LF, VT, FF,
      CR, SPACE and NBSP are the ones below 256.\<close>
  "isWhiteSpace c = (let n = (of_char c :: nat) in (9 \<le> n \<and> n \<le> 13) \<or> n = 32 \<or> n = 160)"

definition trim :: "string \<Rightarrow> string" where
  "trim s = rev (dropWhile isWhiteSpace (rev (dropWhile isWhiteSpace s)))"

fun js_lt :: "string \<Rightarrow> string \<Rightarrow> bool" where
  \<comment> \<open>\<open>a < b\<close> on two strings: the first differing code unit decides, a proper prefix is smaller.\<close>
  "js_lt [] [] = False"
| "js_lt [] (y # ys) = True"
| "js_lt (x # xs) [] = False"
| "js_lt (x # xs) (y # ys) = (if x = y then js_lt xs ys else (of_char x :: nat) < of_char y)"

definition js_le :: "string \<Rightarrow> string \<Rightarrow> bool" where
  \<comment> \<open>\<open>a <= b\<close> is evaluated as the negation of \<open>b < a\<close>.\<close>
  "js_le a b = (\<not> js_lt b a)"

definition truthy :: "string option \<Rightarrow> bool" where
  \<comment> \<open>\<open>undefined\<close> (a missing property) and the empty string are falsy.\<close>
  "truthy v = (case v of None \<Rightarrow> False | Some s \<Rightarrow> s \<noteq> [])"

definition js_or :: "string option \<Rightarrow> string option \<Rightarrow> string option" where
  \<comment> \<open>\<open>a || b\<close>\<close>
  "js_or a b = (if truthy a then a else b)"


section \<open>The poller: poll-jotform.js\<close>

text \<open>
  A submission as the JotForm API returns it, with the two properties \<open>processNew\<close> reads.
  \<open>None\<close> is a property the object does not have.
\<close>

record submission =
  submission_id :: "string option"
  id' :: "string option"

text \<open>
  \<open>generate(mapped)\<close> resolves to \<open>true\<close>, resolves to \<open>false\<close>, or rejects. It is the
  templating collaborator: the poller sees only which of the three happened.
\<close>

datatype gen_result = GenTrue | GenFalse | GenThrows

text \<open>
  What one cycle gets from outside: the answer of \<open>listSubmissions()\<close> (\<open>None\<close> when the
  request throws), the generator, and whether \<open>fs.writeFileSync(LAST_FILE, ...)\<close> succeeds.
\<close>

record poll_env =
  fetched :: "submission list option"
  generate :: "submission \<Rightarrow> gen_result"
  write_ok :: bool

text \<open>The file \<open>last_submission.txt\<close>: its content, \<open>None\<close> when it cannot be read.\<close>

type_synonym last_file = "string option"

definition readLastProcessed :: "last_file \<Rightarrow> string" where
  "readLastProcessed f = (case f of None \<Rightarrow> [] | Some content \<Rightarrow> trim content)"

definition writeLastProcessed :: "bool \<Rightarrow> string \<Rightarrow> last_file \<Rightarrow> last_file" where
  \<comment> \<open>a failed write is caught and logged; the file stays as it was\<close>
  "writeLastProcessed ok sid f = (if ok then Some sid else f)"

definition sid_of :: "submission \<Rightarrow> string option" where
  "sid_of s = js_or (submission_id s) (id' s)"

text \<open>
  The \<open>for (const s of submissions)\<close> loop. The state is \<open>newestSeen\<close> and the list of
  identifiers handed to \<open>generate\<close> so far, in order.
\<close>

fun process_loop ::
  "(submission \<Rightarrow> gen_result) \<Rightarrow> string \<Rightarrow> submission list \<Rightarrow> string \<times> string list
    \<Rightarrow> string \<times> string list" where
  "process_loop gen last' [] st = st"
| "process_loop gen last' (s # ss) (newestSeen, offered) =
     (case sid_of s of
        None \<Rightarrow> process_loop gen last' ss (newestSeen, offered)
      | Some sid \<Rightarrow>
          if sid = [] then process_loop gen last' ss (newestSeen, offered)
          else if last' \<noteq> [] \<and> js_le sid last' then process_loop gen last' ss (newestSeen, offered)
          else (case gen s of
                  GenTrue \<Rightarrow> process_loop gen last' ss (sid, offered @ [sid])
                | GenFalse \<Rightarrow> process_loop gen last' ss (newestSeen, offered @ [sid])
                | GenThrows \<Rightarrow> process_loop gen last' ss (newestSeen, offered @ [sid])))"

text \<open>
  One cycle: the new content of the watermark file and the identifiers offered to the
  generator.
\<close>

definition processNew :: "poll_env \<Rightarrow> last_file \<Rightarrow> last_file \<times> string list" where
  "processNew env f =
     (case fetched env of
        None \<Rightarrow> (f, [])
      | Some submissions \<Rightarrow>
          if submissions = [] then (f, [])
          else
            let last' = readLastProcessed f;
                (newestSeen, offered) = process_loop (generate env) last' (rev submissions) (last', [])
            in (if newestSeen \<noteq> [] \<and> newestSeen \<noteq> last'
                then writeLastProcessed (write_ok env) newestSeen f else f, offered))"


section \<open>Digits and numbers\<close>

definition isDigit :: "char \<Rightarrow> bool" where
  \<comment> \<open>\<open>\d\<close>: the ten ASCII digits\<close>
  "isDigit c = (let n = (of_char c :: nat) in 48 \<le> n \<and> n \<le> 57)"

definition isLetter :: "char \<Rightarrow> bool" where
  \<comment> \<open>\<open>[A-Za-z]\<close>; with the \<open>i\<close> flag and no \<open>u\<close> flag the class matches the same characters\<close>
  "isLetter c = (let n = (of_char c :: nat) in (65 \<le> n \<and> n \<le> 90) \<or> (97 \<le> n \<and> n \<le> 122))"

definition toLowerCase :: "string \<Rightarrow> string" where
  \<comment> \<open>used on ASCII letters and in \<open>normalize\<close>, where every other character is deleted afterwards\<close>
  "toLowerCase s =
     map (\<lambda>c. case map_of (zip ''ABCDEFGHIJKLMNOPQRSTUVWXYZ'' ''abcdefghijklmnopqrstuvwxyz'') c of
                 Some l \<Rightarrow> l
               | None \<Rightarrow> c) s"

definition Number :: "string \<Rightarrow> int" where
  \<comment> \<open>\<open>Number(m[i])\<close> on a capture of decimal digits\<close>
  "Number ds = foldl (\<lambda>n c. 10 * n + (int (of_char c) - 48)) 0 ds"

fun digits :: "nat \<Rightarrow> string" where
  "digits n =
     (if n < 10 then [''0123456789'' ! n] else digits (n div 10) @ [''0123456789'' ! (n mod 10)])"

declare digits.simps [simp del]

definition String :: "int \<Rightarrow> string" where
  \<comment> \<open>\<open>String(n)\<close> of an integer\<close>
  "String n = (if n < 0 then CHR ''-'' # digits (nat (- n)) else digits (nat n))"


section \<open>The Date object\<close>

text \<open>
  A \<open>Date\<close> is its time value, the milliseconds since 1970-01-01T00:00:00Z. The local
  time zone is a fixed offset \<open>tza\<close> from UTC, in milliseconds, a constant of the process:
  zones whose offset changes (daylight saving) are not covered. Every year the parsers
  read has at most four digits, so no time value leaves the range of valid dates.

  Days are counted from 1970-01-01 in the proleptic Gregorian calendar, with the
  functions of the language standard: \<open>DayFromYear\<close>, \<open>DaysInYear\<close>, \<open>YearFromTime\<close>,
  \<open>MonthFromTime\<close>, \<open>DateFromTime\<close> (here on day numbers) and \<open>MakeDay\<close>. The standard
  defines \<open>YearFromTime\<close> as the largest year that starts at or before the time;
  \<open>YearFromDay\<close> computes it from an estimate that is off by at most one year.
\<close>

type_synonym Date = int

definition msPerDay :: int where
  "msPerDay = 86400000"

definition DayFromYear :: "int \<Rightarrow> int" where
  "DayFromYear y = 365 * (y - 1970) + (y - 1969) div 4 - (y - 1901) div 100 + (y - 1601) div 400"

definition InLeapYear :: "int \<Rightarrow> bool" where
  "InLeapYear y = (y mod 4 = 0 \<and> (y mod 100 \<noteq> 0 \<or> y mod 400 = 0))"

definition DaysInYear :: "int \<Rightarrow> int" where
  "DaysInYear y = (if InLeapYear y then 366 else 365)"

definition YearFromDay :: "int \<Rightarrow> int" where
  "YearFromDay d =
     (let y = 1970 + (400 * d) div 146097
      in if d < DayFromYear y then y - 1 else if DayFromYear (y + 1) \<le> d then y + 1 else y)"

definition DaysBeforeMonth :: "bool \<Rightarrow> int \<Rightarrow> int" where
  \<comment> \<open>the day of the year on which the month 0..11 starts\<close>
  "DaysBeforeMonth leap m =
     (if leap \<and> 2 \<le> m then 1 else 0)
     + [0, 31, 59, 90, 120, 151, 181, 212, 243, 273, 304, 334] ! nat m"

definition MonthFromDay :: "int \<Rightarrow> int" where
  \<comment> \<open>0..11: the number of months after January that start at or before the day\<close>
  "MonthFromDay d =
     (let y = YearFromDay d
      in int (length (filter (\<lambda>m. DaysBeforeMonth (InLeapYear y) m \<le> d - DayFromYear y)
                        [1, 2, 3, 4, 5, 6, 7, 8, 9, 10, 11])))"

definition DateFromDay :: "int \<Rightarrow> int" where
  "DateFromDay d =
     (let y = YearFromDay d
      in d - DayFromYear y - DaysBeforeMonth (InLeapYear y) (MonthFromDay d) + 1)"

definition DaysInMonth :: "int \<Rightarrow> int \<Rightarrow> int" where
  \<comment> \<open>the length of the month 1..12 of a year\<close>
  "DaysInMonth y m =
     (if m = 2 then (if InLeapYear y then 29 else 28)
      else if m = 4 \<or> m = 6 \<or> m = 9 \<or> m = 11 then 30 else 31)"

definition MakeDay :: "int \<Rightarrow> int \<Rightarrow> int \<Rightarrow> int" where
  \<comment> \<open>the month is 0-based and may lie outside 0..11, the day outside the month\<close>
  "MakeDay year month date =
     (let ym = year + month div 12; mn = month mod 12
      in DayFromYear ym + DaysBeforeMonth (InLeapYear ym) mn + date - 1)"

definition new_Date :: "int \<Rightarrow> int \<Rightarrow> int \<Rightarrow> int \<Rightarrow> Date" where
  \<comment> \<open>\<open>new Date(year, month, day)\<close>: local midnight; a year 0..99 means 1900 + year\<close>
  "new_Date tza year month day =
     (let yr = (if 0 \<le> year \<and> year \<le> 99 then 1900 + year else year)
      in MakeDay yr month day * msPerDay - tza)"

definition LocalDay :: "int \<Rightarrow> Date \<Rightarrow> int" where
  "LocalDay tza t = (t + tza) div msPerDay"

definition getFullYear :: "int \<Rightarrow> Date \<Rightarrow> int" where
  "getFullYear tza t = YearFromDay (LocalDay tza t)"

definition getMonth :: "int \<Rightarrow> Date \<Rightarrow> int" where
  "getMonth tza t = MonthFromDay (LocalDay tza t)"

definition getDate :: "int \<Rightarrow> Date \<Rightarrow> int" where
  "getDate tza t = DateFromDay (LocalDay tza t)"

definition getTime :: "Date \<Rightarrow> int" where
  "getTime t = t"


section \<open>The deterministic date parser: fillFromSheet.js\<close>

datatype kind = DMY | ISO | TEXT

definition isSep :: "char \<Rightarrow> bool" where
  \<comment> \<open>the class \<open>[\/\-\.\s]\<close>\<close>
  "isSep c = (c = CHR ''/'' \<or> c = CHR ''-'' \<or> c = CHR ''.'' \<or> isWhiteSpace c)"

text \<open>
  \<open>0*(\d{1,2})\<close> followed by a character that is no digit consumes a whole run of digits.
  The run matches when at most two digits are left after its leading zeros; the capture
  is what is left, or the last zero of a run of zeros.
\<close>

definition lead_digits :: "string \<Rightarrow> string option" where
  "lead_digits ds =
     (if ds = [] then None
      else let r = dropWhile (\<lambda>c. c = CHR ''0'') ds
           in if r = [] then Some ''0'' else if length r \<le> 2 then Some r else None)"

definition match_dmy :: "string \<Rightarrow> (string \<times> string \<times> string) option" where
  \<comment> \<open>\<open>/^0*(\d{1,2})[\/\-\.\s]0*(\d{1,2})[\/\-\.\s](\d{2,4})$/\<close>, the three captures\<close>
  "match_dmy str =
     (case lead_digits (takeWhile isDigit str) of
        None \<Rightarrow> None
      | Some g1 \<Rightarrow>
          (case dropWhile isDigit str of
             [] \<Rightarrow> None
           | c1 # r \<Rightarrow>
               if \<not> isSep c1 then None
               else
                 (case lead_digits (takeWhile isDigit r) of
                    None \<Rightarrow> None
                  | Some g2 \<Rightarrow>
                      (case dropWhile isDigit r of
                         [] \<Rightarrow> None
                       | c2 # g3 \<Rightarrow>
                           if isSep c2 \<and> list_all isDigit g3 \<and> 2 \<le> length g3 \<and> length g3 \<le> 4
                           then Some (g1, g2, g3) else None))))"

definition match_iso :: "string \<Rightarrow> (string \<times> string \<times> string) option" where
  \<comment> \<open>\<open>/^(\d{4})-(\d{1,2})-(\d{1,2})$/\<close>\<close>
  "match_iso str =
     (let g1 = take 4 str in
      if length g1 = 4 \<and> list_all isDigit g1 then
        (case drop 4 str of
           [] \<Rightarrow> None
         | c1 # r \<Rightarrow>
             let g2 = takeWhile isDigit r in
             if c1 = CHR ''-'' \<and> 1 \<le> length g2 \<and> length g2 \<le> 2 then
               (case dropWhile isDigit r of
                  [] \<Rightarrow> None
                | c2 # g3 \<Rightarrow>
                    if c2 = CHR ''-'' \<and> list_all isDigit g3 \<and> 1 \<le> length g3 \<and> length g3 \<le> 2
                    then Some (g1, g2, g3) else None)
             else None)
      else None)"

definition monthNames :: "(string \<times> int) list" where
  "monthNames =
     [(''january'', 1), (''february'', 2), (''march'', 3), (''april'', 4), (''may'', 5), (''june'', 6),
      (''july'', 7), (''august'', 8), (''september'', 9), (''october'', 10), (''november'', 11),
      (''december'', 12),
      (''jan'', 1), (''feb'', 2), (''mar'', 3), (''apr'', 4), (''may'', 5), (''jun'', 6), (''jul'', 7),
      (''aug'', 8), (''sep'', 9), (''sept'', 9), (''oct'', 10), (''nov'', 11), (''dec'', 12)]"

fun collapse :: "bool \<Rightarrow> string \<Rightarrow> string" where
  \<comment> \<open>\<open>.replace(/\s+/g, ' ')\<close>: every run of white space becomes one space; the flag tells
      that the character before was white space\<close>
  "collapse prev [] = []"
| "collapse prev (c # cs) =
     (if isWhiteSpace c then (if prev then collapse True cs else CHR '' '' # collapse True cs)
      else c # collapse False cs)"

definition cleaned_of :: "string \<Rightarrow> string" where
  \<comment> \<open>\<open>str.replace(/,/g,' ').replace(/\s+/g,' ').trim()\<close>\<close>
  "cleaned_of str = trim (collapse False (map (\<lambda>c. if c = CHR '','' then CHR '' '' else c) str))"

definition skip_ordinal :: "string \<Rightarrow> string" where
  \<comment> \<open>\<open>(?:st|nd|rd|th)?\<close> under the \<open>i\<close> flag, in front of \<open>\s+\<close>\<close>
  "skip_ordinal r =
     (if toLowerCase (take 2 r) \<in> set [''st'', ''nd'', ''rd'', ''th''] then drop 2 r else r)"

definition skip_spaces :: "string \<Rightarrow> string option" where
  \<comment> \<open>\<open>\s+\<close> in front of a letter or a digit\<close>
  "skip_spaces r =
     (case r of [] \<Rightarrow> None | c # cs \<Rightarrow> if isWhiteSpace c then Some (dropWhile isWhiteSpace cs) else None)"

definition year4 :: "string \<Rightarrow> bool" where
  \<comment> \<open>\<open>(\d{4})$\<close>\<close>
  "year4 g = (length g = 4 \<and> list_all isDigit g)"

definition match_day_month :: "string \<Rightarrow> (string \<times> string \<times> string) option" where
  \<comment> \<open>\<open>/^(\d{1,2})(?:st|nd|rd|th)?\s+([A-Za-z]{3,9})\s+(\d{4})$/i\<close>\<close>
  "match_day_month cleaned =
     (let g1 = takeWhile isDigit cleaned in
      if 1 \<le> length g1 \<and> length g1 \<le> 2 then
        (case skip_spaces (skip_ordinal (dropWhile isDigit cleaned)) of
           None \<Rightarrow> None
         | Some r \<Rightarrow>
             let g2 = takeWhile isLetter r in
             if 3 \<le> length g2 \<and> length g2 \<le> 9 then
               (case skip_spaces (dropWhile isLetter r) of
                  None \<Rightarrow> None
                | Some g3 \<Rightarrow> if year4 g3 then Some (g1, g2, g3) else None)
             else None)
      else None)"

definition match_month_day :: "string \<Rightarrow> (string \<times> string \<times> string) option" where
  \<comment> \<open>\<open>/^([A-Za-z]{3,9})\s+(\d{1,2})(?:st|nd|rd|th)?\s+(\d{4})$/i\<close>\<close>
  "match_month_day cleaned =
     (let g1 = takeWhile isLetter cleaned in
      if 3 \<le> length g1 \<and> length g1 \<le> 9 then
        (case skip_spaces (dropWhile isLetter cleaned) of
           None \<Rightarrow> None
         | Some r \<Rightarrow>
             let g2 = takeWhile isDigit r in
             if 1 \<le> length g2 \<and> length g2 \<le> 2 then
               (case skip_spaces (skip_ordinal (dropWhile isDigit r)) of
                  None \<Rightarrow> None
                | Some g3 \<Rightarrow> if year4 g3 then Some (g1, g2, g3) else None)
             else None)
      else None)"

text \<open>
  The guard every branch applies to the date it built:
  \<open>d.getFullYear() === year && d.getMonth() === month - 1 && d.getDate() === day\<close>.
\<close>

definition same_parts :: "int \<Rightarrow> Date \<Rightarrow> int \<Rightarrow> int \<Rightarrow> int \<Rightarrow> bool" where
  "same_parts tza d year month day =
     (getFullYear tza d = year \<and> getMonth tza d = month - 1 \<and> getDate tza d = day)"

definition parse_dmy :: "int \<Rightarrow> string \<times> string \<times> string \<Rightarrow> (Date \<times> kind) option" where
  \<comment> \<open>the body of \<open>if (m) { ... }\<close> after the numeric pattern; \<open>None\<close> is \<open>{ date: null, kind: null }\<close>\<close>
  "parse_dmy tza m =
     (case m of (g1, g2, g3) \<Rightarrow>
        let day = Number g1; month = Number g2; rawYear = Number g3;
            year = (if rawYear < 100 then 2000 + rawYear else rawYear)
        in if month \<ge> 1 \<and> month \<le> 12 \<and> day \<ge> 1 \<and> day \<le> 31
              \<and> same_parts tza (new_Date tza year (month - 1) day) year month day
           then Some (new_Date tza year (month - 1) day, DMY) else None)"

definition parse_iso :: "int \<Rightarrow> string \<times> string \<times> string \<Rightarrow> (Date \<times> kind) option" where
  "parse_iso tza m =
     (case m of (g1, g2, g3) \<Rightarrow>
        let year = Number g1; month = Number g2; day = Number g3
        in if same_parts tza (new_Date tza year (month - 1) day) year month day
           then Some (new_Date tza year (month - 1) day, ISO) else None)"

definition parse_text :: "int \<Rightarrow> string \<Rightarrow> string \<Rightarrow> string \<Rightarrow> (Date \<times> kind) option" where
  \<comment> \<open>the body shared by the two textual patterns; \<open>None\<close> falls through to the next statement\<close>
  "parse_text tza gday gmonth gyear =
     (let day = Number gday; year = Number gyear
      in case map_of monthNames (toLowerCase gmonth) of
           None \<Rightarrow> None
         | Some month \<Rightarrow>
             if day \<ge> 1 \<and> day \<le> 31
                \<and> same_parts tza (new_Date tza year (month - 1) day) year month day
             then Some (new_Date tza year (month - 1) day, TEXT) else None)"

definition parse_textual :: "int \<Rightarrow> string \<Rightarrow> (Date \<times> kind) option" where
  "parse_textual tza str =
     (let cleaned = cleaned_of str;
          first = (case match_day_month cleaned of
                     None \<Rightarrow> None
                   | Some (g1, g2, g3) \<Rightarrow> parse_text tza g1 g2 g3)
      in case first of
           Some r \<Rightarrow> Some r
         | None \<Rightarrow>
             (case match_month_day cleaned of
                None \<Rightarrow> None
              | Some (g1, g2, g3) \<Rightarrow> parse_text tza g2 g1 g3))"

definition parseDateDeterministic :: "int \<Rightarrow> string \<Rightarrow> (Date \<times> kind) option" where
  "parseDateDeterministic tza s =
     (if s = [] then None
      else
        let str = trim s in
        case match_dmy str of
          Some m \<Rightarrow> parse_dmy tza m
        | None \<Rightarrow>
            (case match_iso str of
               Some m \<Rightarrow> parse_iso tza m
             | None \<Rightarrow> parse_textual tza str))"


section \<open>File names: fillFromSheet.js\<close>

definition FINAL_DATE_REGEX :: "string \<Rightarrow> bool" where
  \<comment> \<open>\<open>/^\d{1,2}-\d{1,2}-\d{4}$/.test(s)\<close>\<close>
  "FINAL_DATE_REGEX s =
     (let g1 = takeWhile isDigit s in
      1 \<le> length g1 \<and> length g1 \<le> 2 \<and>
      (case dropWhile isDigit s of
         [] \<Rightarrow> False
       | c1 # r \<Rightarrow>
           let g2 = takeWhile isDigit r in
           c1 = CHR ''-'' \<and> 1 \<le> length g2 \<and> length g2 \<le> 2 \<and>
           (case dropWhile isDigit r of
              [] \<Rightarrow> False
            | c2 # g3 \<Rightarrow> c2 = CHR ''-'' \<and> year4 g3)))"

definition hostile :: "char \<Rightarrow> bool" where
  \<comment> \<open>the class \<open>[\/\\?%*:|"<>]\<close>\<close>
  "hostile c = (c \<in> set [CHR ''/'', CHR 0x5C, CHR ''?'', CHR ''%'', CHR ''*'', CHR '':'', CHR ''|'',
                           CHR 0x22, CHR ''<'', CHR ''>''])"

definition safeFilename :: "string \<Rightarrow> string" where
  "safeFilename str = trim (map (\<lambda>c. if hostile c then CHR ''-'' else c) str)"

definition formatDateForFilename :: "int \<Rightarrow> Date \<Rightarrow> string" where
  "formatDateForFilename tza date =
     String (getDate tza date) @ ''-'' @ String (getMonth tza date + 1) @ ''-''
       @ String (getFullYear tza date)"

definition normalizeRawDateForFilename :: "int \<Rightarrow> string \<Rightarrow> string option" where
  "normalizeRawDateForFilename tza raw =
     (if raw = [] then None
      else case match_dmy (trim raw) of
             None \<Rightarrow> None
           | Some (g1, g2, g3) \<Rightarrow>
               let day = Number g1; month = Number g2; rawYear = Number g3;
                   year = (if rawYear < 100 then 2000 + rawYear else rawYear)
               in if same_parts tza (new_Date tza year (month - 1) day) year month day
                  then Some (String day @ ''-'' @ String month @ ''-'' @ String year) else None)"

definition or_default :: "string \<Rightarrow> string \<Rightarrow> string" where
  \<comment> \<open>\<open>a || b\<close> on a string \<open>a\<close>\<close>
  "or_default a b = (if a = [] then b else a)"

definition path_join :: "string \<Rightarrow> string \<Rightarrow> string" where
  \<comment> \<open>\<open>path.join(dir, name)\<close> for a normalised absolute \<open>dir\<close> and a \<open>name\<close> without a separator\<close>
  "path_join dir name = (if dir \<noteq> [] \<and> last dir = CHR ''/'' then dir @ name else dir @ ''/'' @ name)"


section \<open>Rows of the sheet\<close>

text \<open>
  A row object: its properties other than \<open>__row\<close>, in the order \<open>Object.keys\<close> lists them,
  each key once. Only the three template fields that decide the date, the file name and
  the filter are modelled; the others reach nothing but the renderer.
\<close>

type_synonym row = "(string \<times> string) list"

record tplData =
  NAME :: string
  DATE :: string
  JOB_NO :: string

definition normalize :: "string \<Rightarrow> string" where
  \<comment> \<open>\<open>String(s || '').toLowerCase().replace(/[^a-z0-9]/g, '')\<close>\<close>
  "normalize s =
     filter (\<lambda>c. let n = (of_char c :: nat) in (97 \<le> n \<and> n \<le> 122) \<or> (48 \<le> n \<and> n \<le> 57))
       (toLowerCase s)"

fun normRow_of :: "row \<Rightarrow> (string \<rightharpoonup> string) \<Rightarrow> (string \<rightharpoonup> string)" where
  \<comment> \<open>\<open>for (const k of Object.keys(row)) normRow[normalize(k)] = row[k]\<close>\<close>
  "normRow_of [] normRow = normRow"
| "normRow_of ((k, v) # kvs) normRow = normRow_of kvs (normRow(normalize k \<mapsto> v))"

fun pick :: "(string \<rightharpoonup> string) \<Rightarrow> string list \<Rightarrow> string" where
  "pick normRow [] = []"
| "pick normRow (name # names) =
     (case normRow (normalize name) of
        None \<Rightarrow> pick normRow names
      | Some v \<Rightarrow> if trim v \<noteq> [] then trim v else pick normRow names)"

definition mapSheetRowToTemplateFields :: "row \<Rightarrow> tplData" where
  "mapSheetRowToTemplateFields r =
     (let normRow = normRow_of r Map.empty in
      \<lparr>NAME = pick normRow [''Name'', ''Full Name'', ''full name'', ''name''],
       DATE = pick normRow [''Date'', ''DATE'', ''_created_at'', ''date''],
       JOB_NO = pick normRow [''Job Number'', ''JOB NUMBER'', ''Job No'', ''job number'', ''job_no'']\<rparr>)"


section \<open>The generator: fillFromSheet.js\<close>

text \<open>
  What is fixed for one run: the command line flags, the output directory, the time zone
  of the process and the template renderer. \<open>render\<close> stands for the lines of \<open>createDocx\<close>
  from \<open>new PizZip(content)\<close> to \<open>doc.getZip().generate(...)\<close>: it takes the content of
  the template and the data and gives the buffer to write, \<open>None\<close> when \<open>doc.render\<close>
  throws. \<open>DAYS\<close> and the number of files pruning keeps are the numbers the script
  reads from its command line, taken as integers: \<open>DAYS\<close> is
  \<open>Number(argv.days || argv['since-days'] || process.env.DEFAULT_DAYS || 7)\<close> and the
  retain count is \<open>Number(argv.prune || 0)\<close>.
\<close>

record config =
  OUTPUT_DIR :: string
  FORCE :: bool
  DRY :: bool
  DAYS :: int
  tza :: int
  render :: "string \<Rightarrow> tplData \<Rightarrow> string option"

text \<open>
  The file system as the generator sees it: the template file (\<open>None\<close> when it does not
  exist), the output directory (\<open>None\<close> when it does not exist, otherwise its entries by
  name, in the order \<open>readdirSync\<close> lists them), and the names on which a write or an
  unlink throws.
\<close>

record entry =
  content :: string
  mtimeMs :: int

record filesystem =
  template :: "string option"
  outdir :: "(string \<times> entry) list option"
  write_fails :: "string set"
  unlink_fails :: "string set"

datatype error = TemplateNotFound | RenderFailed | InvalidFilenameDate | WriteFailed

record docx_result =
  skipped :: bool
  path :: string
  dry :: bool

definition ensureDirSync :: "filesystem \<Rightarrow> filesystem" where
  "ensureDirSync fs = (case outdir fs of None \<Rightarrow> fs\<lparr>outdir := Some []\<rparr> | Some es \<Rightarrow> fs)"

definition existsSync :: "filesystem \<Rightarrow> string \<Rightarrow> bool" where
  \<comment> \<open>on a name in the output directory\<close>
  "existsSync fs name = (case outdir fs of None \<Rightarrow> False | Some es \<Rightarrow> name \<in> fst ` set es)"

fun put_entry :: "string \<Rightarrow> entry \<Rightarrow> (string \<times> entry) list \<Rightarrow> (string \<times> entry) list" where
  "put_entry name f [] = [(name, f)]"
| "put_entry name f ((n, g) # es) = (if n = name then (n, f) # es else (n, g) # put_entry name f es)"

definition writeFileSync :: "int \<Rightarrow> filesystem \<Rightarrow> string \<Rightarrow> string \<Rightarrow> filesystem option" where
  \<comment> \<open>on a name in the output directory; \<open>None\<close> when it throws\<close>
  "writeFileSync now fs name buf =
     (case outdir fs of
        None \<Rightarrow> None
      | Some es \<Rightarrow>
          if name \<in> write_fails fs then None
          else Some (fs\<lparr>outdir := Some (put_entry name \<lparr>content = buf, mtimeMs = now\<rparr> es)\<rparr>))"

definition safeDate_of :: "int \<Rightarrow> string \<Rightarrow> string" where
  \<comment> \<open>the lines of \<open>createDocx\<close> from \<open>rawDateStr\<close> to \<open>safeDate\<close>; \<open>null\<close> and the empty
      string are both falsy and both written \<open>[]\<close>\<close>
  "safeDate_of tz rawDateStr =
     (let formatted =
            (case parseDateDeterministic tz rawDateStr of
               Some (parsedDate, parsedKind) \<Rightarrow> formatDateForFilename tz parsedDate
             | None \<Rightarrow> []);
          formattedDate =
            (if formatted = [] then
               (case normalizeRawDateForFilename tz rawDateStr of
                  Some normalized \<Rightarrow> if normalized \<noteq> [] then normalized else formatted
                | None \<Rightarrow> formatted)
             else formatted)
      in or_default formattedDate ''nodate'')"

definition outputName :: "int \<Rightarrow> tplData \<Rightarrow> string" where
  "outputName tz data =
     safeDate_of tz (DATE data) @ ''-'' @ safeFilename (or_default (NAME data) ''NONAME'') @ ''-''
       @ safeFilename (or_default (JOB_NO data) ''NOJOBNO'') @ ''.docx''"

definition createDocx ::
  "config \<Rightarrow> int \<Rightarrow> filesystem \<Rightarrow> tplData \<Rightarrow> (error + docx_result) \<times> filesystem" where
  "createDocx cfg now fs0 data =
     (case template fs0 of
        None \<Rightarrow> (Inl TemplateNotFound, fs0)
      | Some tpl \<Rightarrow>
          let fs = ensureDirSync fs0 in
          (case render cfg tpl data of
             None \<Rightarrow> (Inl RenderFailed, fs)
           | Some buf \<Rightarrow>
               let safeDate = safeDate_of (tza cfg) (DATE data) in
               if safeDate \<noteq> ''nodate'' \<and> \<not> FINAL_DATE_REGEX safeDate
               then (Inl InvalidFilenameDate, fs)
               else
                 let name = outputName (tza cfg) data;
                     outputFile = path_join (OUTPUT_DIR cfg) name
                 in if existsSync fs name \<and> \<not> FORCE cfg
                    then (Inr \<lparr>skipped = True, path = outputFile, dry = False\<rparr>, fs)
                    else if DRY cfg
                    then (Inr \<lparr>skipped = False, path = outputFile, dry = True\<rparr>, fs)
                    else (case writeFileSync now fs name buf of
                            None \<Rightarrow> (Inl WriteFailed, fs)
                          | Some fs' \<Rightarrow>
                              (Inr \<lparr>skipped = False, path = outputFile, dry = False\<rparr>, fs'))))"

text \<open>The \<open>--days\<close> filter of the main function; \<open>now\<close> is \<open>Date.now()\<close>.\<close>

definition the_str :: "string option \<Rightarrow> string" where
  "the_str v = (case v of None \<Rightarrow> [] | Some s \<Rightarrow> s)"

definition dateStr_of :: "row \<Rightarrow> string" where
  \<comment> \<open>\<open>mapped.DATE || r['Date'] || r['_created_at'] || ''\<close>\<close>
  "dateStr_of r =
     the_str (js_or (js_or (js_or (Some (DATE (mapSheetRowToTemplateFields r))) (map_of r ''Date''))
                       (map_of r ''_created_at''))
                (Some []))"

definition keep :: "config \<Rightarrow> int \<Rightarrow> row \<Rightarrow> bool" where
  "keep cfg now r =
     (let cutoff = now - DAYS cfg * 24 * 60 * 60 * 1000 in
      case parseDateDeterministic (tza cfg) (dateStr_of r) of
        None \<Rightarrow> False
      | Some (chosenDate, parsedKind) \<Rightarrow> getTime chosenDate \<ge> cutoff)"

definition days_filter :: "config \<Rightarrow> int \<Rightarrow> row list \<Rightarrow> row list" where
  "days_filter cfg now rows = (if DAYS cfg > 0 then filter (keep cfg now) rows else rows)"


definition row_debug :: "config \<Rightarrow> int \<Rightarrow> row \<Rightarrow> string \<times> (Date \<times> kind) option \<times> bool" where
  \<comment> \<open>what the filter loop prints for one row under \<open>--debug\<close>: the raw DATE field, the parsed
      date and kind, and whether the row is kept\<close>
  "row_debug cfg now r =
     (dateStr_of r, parseDateDeterministic (tza cfg) (dateStr_of r), keep cfg now r)"


section \<open>The heuristic generator: the second sheet script\<close>

text \<open>
  The earlier generator keeps a list of candidate dates for one string. \<open>new Date(str)\<close>
  on a string that is no ISO date is left to the implementation by the language: it is the
  parameter \<open>native\<close> (\<open>None\<close> for an invalid date).
\<close>

datatype ckind = native | dmy | mdy

record parsed_candidates =
  date :: "Date option"
  candidates :: "(ckind \<times> Date) list"
  chosenKind :: "ckind option"

definition match_parts :: "string \<Rightarrow> (string \<times> string \<times> string) option" where
  \<comment> \<open>\<open>/^(\d{1,2})[\/\-\.\s](\d{1,2})[\/\-\.\s](\d{2,4})$/\<close>\<close>
  "match_parts str =
     (let g1 = takeWhile isDigit str in
      if 1 \<le> length g1 \<and> length g1 \<le> 2 then
        (case dropWhile isDigit str of
           [] \<Rightarrow> None
         | c1 # r \<Rightarrow>
             let g2 = takeWhile isDigit r in
             if isSep c1 \<and> 1 \<le> length g2 \<and> length g2 \<le> 2 then
               (case dropWhile isDigit r of
                  [] \<Rightarrow> None
                | c2 # g3 \<Rightarrow>
                    if isSep c2 \<and> list_all isDigit g3 \<and> 2 \<le> length g3 \<and> length g3 \<le> 4
                    then Some (g1, g2, g3) else None)
             else None)
      else None)"

definition find_kind :: "ckind \<Rightarrow> (ckind \<times> Date) list \<Rightarrow> (ckind \<times> Date) option" where
  \<comment> \<open>\<open>candidates.find(c => c.kind === k)\<close>\<close>
  "find_kind k cs = find (\<lambda>c. fst c = k) cs"

definition numeric_candidates :: "int \<Rightarrow> string \<Rightarrow> (ckind \<times> Date) list" where
  "numeric_candidates tz str =
     (case match_parts str of
        None \<Rightarrow> []
      | Some (g1, g2, g3) \<Rightarrow>
          let p1 = Number g1; p2 = Number g2; p3 = Number g3;
              year = (if p3 < 100 then 2000 + p3 else p3)
          in (if p2 \<ge> 1 \<and> p2 \<le> 12 \<and> p1 \<ge> 1 \<and> p1 \<le> 31
                 \<and> same_parts tz (new_Date tz year (p2 - 1) p1) year p2 p1
              then [(dmy, new_Date tz year (p2 - 1) p1)] else [])
             @
             (if p1 \<ge> 1 \<and> p1 \<le> 12 \<and> p2 \<ge> 1 \<and> p2 \<le> 31
                 \<and> same_parts tz (new_Date tz year (p1 - 1) p2) year p1 p2
              then [(mdy, new_Date tz year (p1 - 1) p2)] else []))"

definition parseDateCandidates :: "(string \<Rightarrow> Date option) \<Rightarrow> int \<Rightarrow> string \<Rightarrow> parsed_candidates" where
  "parseDateCandidates nat_parse tz s =
     (if s = [] then \<lparr>date = None, candidates = [], chosenKind = None\<rparr>
      else
        let str = trim s;
            cs = (case nat_parse str of None \<Rightarrow> [] | Some d \<Rightarrow> [(native, d)])
                 @ numeric_candidates tz str
        in case cs of
             [] \<Rightarrow> \<lparr>date = None, candidates = [], chosenKind = None\<rparr>
           | c0 # rest \<Rightarrow>
               (case find_kind dmy cs of
                  Some dmyC \<Rightarrow> \<lparr>date = Some (snd dmyC), candidates = cs, chosenKind = Some dmy\<rparr>
                | None \<Rightarrow>
                    let chosen = (case find_kind native cs of Some nativeC \<Rightarrow> nativeC | None \<Rightarrow> c0)
                    in \<lparr>date = Some (snd chosen), candidates = cs, chosenKind = Some (fst chosen)\<rparr>))"

definition chosen_of :: "(string \<Rightarrow> Date option) \<Rightarrow> int \<Rightarrow> int \<Rightarrow> string \<Rightarrow> Date option \<times> ckind option" where
  \<comment> \<open>\<open>chosenDate\<close> and \<open>chosenKind\<close> of the filter loop, for the cutoff of the run\<close>
  "chosen_of nat_parse tz cutoff dateStr =
     (let parsed = parseDateCandidates nat_parse tz dateStr in
      case (find_kind dmy (candidates parsed), find_kind mdy (candidates parsed)) of
        (Some candDMY, Some candMDY) \<Rightarrow>
          let dmyOk = (getTime (snd candDMY) \<ge> cutoff); mdyOk = (getTime (snd candMDY) \<ge> cutoff)
          in if dmyOk \<and> \<not> mdyOk then (Some (snd candDMY), Some dmy)
             else if mdyOk \<and> \<not> dmyOk then (Some (snd candMDY), Some mdy)
             else (date parsed, chosenKind parsed)
      | _ \<Rightarrow> (date parsed, chosenKind parsed))"

text \<open>Pruning of the output directory, and what it prints.\<close>

datatype prune_log = Pruned string | WouldPrune string | FailedToDelete string

definition endsWith :: "string \<Rightarrow> string \<Rightarrow> bool" where
  "endsWith s suffix = (length suffix \<le> length s \<and> drop (length s - length suffix) s = suffix)"

definition docx_files :: "(string \<times> entry) list \<Rightarrow> (string \<times> entry) list" where
  \<comment> \<open>the listing, filtered to \<open>.docx\<close> names and sorted by \<open>b.mtime - a.mtime\<close>; the sort is stable\<close>
  "docx_files es =
     sort_key (\<lambda>f. - mtimeMs (snd f)) (filter (\<lambda>f. endsWith (toLowerCase (fst f)) ''.docx'') es)"

fun prune_loop ::
  "bool \<Rightarrow> string set \<Rightarrow> (string \<times> entry) list \<Rightarrow> (string \<times> entry) list \<times> prune_log list
    \<Rightarrow> (string \<times> entry) list \<times> prune_log list" where
  "prune_loop dryrun fails [] st = st"
| "prune_loop dryrun fails (f # fs) (es, logs) =
     (if dryrun then prune_loop dryrun fails fs (es, logs @ [WouldPrune (fst f)])
      else if fst f \<in> fails then prune_loop dryrun fails fs (es, logs @ [FailedToDelete (fst f)])
      else prune_loop dryrun fails fs (filter (\<lambda>e. fst e \<noteq> fst f) es, logs @ [Pruned (fst f)]))"

definition pruneOutputDir :: "config \<Rightarrow> int \<Rightarrow> filesystem \<Rightarrow> filesystem \<times> prune_log list" where
  "pruneOutputDir cfg keepN fs =
     (if keepN \<le> 0 then (fs, [])
      else case outdir fs of
             None \<Rightarrow> (fs, [])
           | Some es \<Rightarrow>
               let files = docx_files es in
               if int (length files) \<le> keepN then (fs, [])
               else
                 let toDelete = drop (nat keepN) files;
                     (es', logs) = prune_loop (DRY cfg) (unlink_fails fs) toDelete (es, [])
                 in (fs\<lparr>outdir := Some es'\<rparr>, logs))"



section \<open>The calendar\<close>

text \<open>
  \<open>YearFromDay\<close>, \<open>MonthFromDay\<close> and \<open>DateFromDay\<close> are the inverse of \<open>MakeDay\<close>
  on the days the calendar has, and only on them.
\<close>

lemma div_step:
  fixes a k :: int
  assumes "0 < k"
  shows "(a + 1) div k = a div k + (if (a + 1) mod k = 0 then 1 else 0)"
proof -
  define q r where "q = a div k" and "r = a mod k"
  have a: "a = k * q + r" and r: "0 \<le> r" "r < k"
    using assms by (simp_all add: q_def r_def)
  show ?thesis
  proof (cases "r = k - 1")
    case True
    then have e: "a + 1 = k * (q + 1) + 0" using a by (simp add: algebra_simps)
    have "(a + 1) div k = q + 1" by (rule int_div_pos_eq [OF e]) (use assms in simp_all)
    moreover have "(a + 1) mod k = 0" by (rule int_mod_pos_eq [OF e]) (use assms in simp_all)
    ultimately show ?thesis by (simp add: q_def)
  next
    case False
    then have e: "a + 1 = k * q + (r + 1)" and b: "0 \<le> r + 1" "r + 1 < k"
      using a r by simp_all
    have "(a + 1) div k = q" by (rule int_div_pos_eq [OF e b])
    moreover have "(a + 1) mod k = r + 1" by (rule int_mod_pos_eq [OF e b])
    ultimately show ?thesis using r by (simp add: q_def)
  qed
qed

lemma div_bounds:
  fixes a k :: int
  assumes "0 < k"
  shows "k * (a div k) \<le> a" "a < k * (a div k) + k"
proof -
  have "a = k * (a div k) + a mod k" by simp
  moreover have "0 \<le> a mod k" "a mod k < k" using assms by simp_all
  ultimately show "k * (a div k) \<le> a" "a < k * (a div k) + k" by linarith+
qed

lemma year_length: "DayFromYear (y + 1) = DayFromYear y + DaysInYear y"
proof -
  have m: "(y - 1968) mod 4 = y mod 4" "(y - 1900) mod 100 = y mod 100"
    "(y - 1600) mod 400 = y mod 400"
    using mod_mult_self1 [of "y - 1968" 492 4] mod_mult_self1 [of "y - 1900" 19 100]
      mod_mult_self1 [of "y - 1600" 4 400]
    by simp_all
  have s4: "(y - 1968) div 4 = (y - 1969) div 4 + (if y mod 4 = 0 then 1 else 0)"
    using div_step [of 4 "y - 1969"] by (simp add: m)
  have s100: "(y - 1900) div 100 = (y - 1901) div 100 + (if y mod 100 = 0 then 1 else 0)"
    using div_step [of 100 "y - 1901"] by (simp add: m)
  have s400: "(y - 1600) div 400 = (y - 1601) div 400 + (if y mod 400 = 0 then 1 else 0)"
    using div_step [of 400 "y - 1601"] by (simp add: m)
  have d1: "y mod 100 = 0" if "y mod 400 = 0"
    using that dvd_trans [of 100 400 y] by (simp add: mod_eq_0_iff_dvd)
  have d2: "y mod 4 = 0" if "y mod 100 = 0"
    using that dvd_trans [of 4 100 y] by (simp add: mod_eq_0_iff_dvd)
  have "DayFromYear (y + 1) =
      365 * (y - 1969) + (y - 1968) div 4 - (y - 1900) div 100 + (y - 1600) div 400"
    by (simp add: DayFromYear_def)
  also have "\<dots> = DayFromYear y + 365 + (if y mod 4 = 0 then 1 else 0)
      - (if y mod 100 = 0 then 1 else 0) + (if y mod 400 = 0 then 1 else 0)"
    unfolding s4 s100 s400 by (simp add: DayFromYear_def)
  also have "\<dots> = DayFromYear y + DaysInYear y"
    unfolding DaysInYear_def InLeapYear_def using d1 d2
    by (cases "y mod 4 = 0"; cases "y mod 100 = 0"; cases "y mod 400 = 0") simp_all
  finally show ?thesis .
qed

lemma DayFromYear_bounds:
  "146097 * y \<le> 400 * DayFromYear y + 287811596"
  "400 * DayFromYear y + 287810501 \<le> 146097 * y"
proof -
  define q4 q100 q400 where "q4 = (y - 1969) div 4" and "q100 = (y - 1901) div 100"
    and "q400 = (y - 1601) div 400"
  have b: "4 * q4 \<le> y - 1969" "y - 1969 < 4 * q4 + 4"
    "100 * q100 \<le> y - 1901" "y - 1901 < 100 * q100 + 100"
    "400 * q400 \<le> y - 1601" "y - 1601 < 400 * q400 + 400"
    by (simp_all add: div_bounds q4_def q100_def q400_def)
  have s: "100 * y \<le> 400 * q4 + 197200" "400 * q4 + 196900 \<le> 100 * y"
    "4 * y \<le> 400 * q100 + 8000" "400 * q100 + 7604 \<le> 4 * y"
    using b by linarith+
  have d: "400 * DayFromYear y = 146000 * y - 287620000 + 400 * q4 - 400 * q100 + 400 * q400"
    by (simp add: DayFromYear_def q4_def q100_def q400_def)
  show "146097 * y \<le> 400 * DayFromYear y + 287811596"
    unfolding d using s b(5,6) by linarith
  show "400 * DayFromYear y + 287810501 \<le> 146097 * y"
    unfolding d using s b(5,6) by linarith
qed

lemma DayFromYear_mono: "a < b \<Longrightarrow> DayFromYear a < DayFromYear b"
proof -
  assume "a < b"
  then have "146097 * a + 146097 \<le> 146097 * b" by simp
  then have "400 * DayFromYear a < 400 * DayFromYear b"
    using DayFromYear_bounds [of a] DayFromYear_bounds [of b] by linarith
  then show ?thesis by simp
qed

lemma DayFromYear_le: "DayFromYear a \<le> DayFromYear b \<longleftrightarrow> a \<le> b"
  using DayFromYear_mono [of a b] DayFromYear_mono [of b a] by (cases a b rule: linorder_cases) auto

lemma year_bracket:
  "DayFromYear (YearFromDay d) \<le> d \<and> d < DayFromYear (YearFromDay d + 1)"
proof -
  define e where "e = 1970 + (400 * d) div 146097"
  have "146097 * ((400 * d) div 146097) \<le> 400 * d"
    "400 * d < 146097 * ((400 * d) div 146097) + 146097"
    by (simp_all add: div_bounds)
  then have b: "146097 * e \<le> 400 * d + 287811090" "400 * d + 287811090 < 146097 * e + 146097"
    by (simp_all add: e_def)
  have "400 * DayFromYear (e - 1) + 287810501 \<le> 146097 * e - 146097"
    using DayFromYear_bounds(2) [of "e - 1"] by simp
  then have "400 * DayFromYear (e - 1) \<le> 400 * d" using b by linarith
  then have lo: "DayFromYear (e - 1) \<le> d" by simp
  have "146097 * e + 292194 \<le> 400 * DayFromYear (e + 2) + 287811596"
    using DayFromYear_bounds(1) [of "e + 2"] by simp
  then have "400 * d < 400 * DayFromYear (e + 2)" using b by linarith
  then have hi: "d < DayFromYear (e + 2)" by simp
  have y: "YearFromDay d =
      (if d < DayFromYear e then e - 1 else if DayFromYear (e + 1) \<le> d then e + 1 else e)"
    by (simp add: YearFromDay_def e_def Let_def)
  show ?thesis
    using lo hi unfolding y by (auto simp: algebra_simps)
qed

lemma year_unique:
  assumes "DayFromYear Y \<le> d" "d < DayFromYear (Y + 1)"
  shows "YearFromDay d = Y"
proof (rule ccontr)
  assume ne: "YearFromDay d \<noteq> Y"
  note br = year_bracket [of d]
  show False
  proof (cases "YearFromDay d < Y")
    case True
    then have "DayFromYear (YearFromDay d + 1) \<le> DayFromYear Y"
      by (simp add: DayFromYear_le)
    with br assms show False by linarith
  next
    case False
    with ne have "Y + 1 \<le> YearFromDay d" by simp
    then have "DayFromYear (Y + 1) \<le> DayFromYear (YearFromDay d)"
      by (simp add: DayFromYear_le)
    with br assms show False by linarith
  qed
qed


lemma month_bracket:
  assumes "0 \<le> diy" "diy < DaysInYear y"
  defines "c \<equiv> int (length (filter (\<lambda>m. DaysBeforeMonth (InLeapYear y) m \<le> diy)
                               [1, 2, 3, 4, 5, 6, 7, 8, 9, 10, 11]))"
  shows "0 \<le> c \<and> c \<le> 11 \<and> 1 \<le> diy - DaysBeforeMonth (InLeapYear y) c + 1
         \<and> diy - DaysBeforeMonth (InLeapYear y) c + 1 \<le> DaysInMonth y (c + 1)"
proof (cases "InLeapYear y")
  case True
  with assms(2) have hi: "diy < 366" by (simp add: DaysInYear_def)
  consider "diy < 31" | "31 \<le> diy" "diy < 60" | "60 \<le> diy" "diy < 91"
    | "91 \<le> diy" "diy < 121" | "121 \<le> diy" "diy < 152" | "152 \<le> diy" "diy < 182"
    | "182 \<le> diy" "diy < 213" | "213 \<le> diy" "diy < 244" | "244 \<le> diy" "diy < 274"
    | "274 \<le> diy" "diy < 305" | "305 \<le> diy" "diy < 335" | "335 \<le> diy"
    by linarith
  then show ?thesis
    using assms(1) hi True
    by cases (simp_all add: c_def DaysBeforeMonth_def DaysInMonth_def)
next
  case False
  with assms(2) have hi: "diy < 365" by (simp add: DaysInYear_def)
  consider "diy < 31" | "31 \<le> diy" "diy < 59" | "59 \<le> diy" "diy < 90"
    | "90 \<le> diy" "diy < 120" | "120 \<le> diy" "diy < 151" | "151 \<le> diy" "diy < 181"
    | "181 \<le> diy" "diy < 212" | "212 \<le> diy" "diy < 243" | "243 \<le> diy" "diy < 273"
    | "273 \<le> diy" "diy < 304" | "304 \<le> diy" "diy < 334" | "334 \<le> diy"
    by linarith
  then show ?thesis
    using assms(1) hi False
    by cases (simp_all add: c_def DaysBeforeMonth_def DaysInMonth_def)
qed

lemma month_unique:
  assumes "0 \<le> mn" "mn \<le> 11" "1 \<le> dt" "dt \<le> DaysInMonth y (mn + 1)"
  defines "diy \<equiv> DaysBeforeMonth (InLeapYear y) mn + dt - 1"
  shows "0 \<le> diy \<and> diy < DaysInYear y
         \<and> int (length (filter (\<lambda>m. DaysBeforeMonth (InLeapYear y) m \<le> diy)
                           [1, 2, 3, 4, 5, 6, 7, 8, 9, 10, 11])) = mn"
proof -
  have "mn = 0 \<or> mn = 1 \<or> mn = 2 \<or> mn = 3 \<or> mn = 4 \<or> mn = 5 \<or> mn = 6
      \<or> mn = 7 \<or> mn = 8 \<or> mn = 9 \<or> mn = 10 \<or> mn = 11"
    using assms(1,2) by presburger
  then consider "mn = 0" | "mn = 1" | "mn = 2" | "mn = 3" | "mn = 4" | "mn = 5" | "mn = 6"
    | "mn = 7" | "mn = 8" | "mn = 9" | "mn = 10" | "mn = 11"
    by blast
  then show ?thesis
    using assms(3,4)
    by cases (cases "InLeapYear y";
        simp add: diy_def DaysBeforeMonth_def DaysInMonth_def DaysInYear_def)+
qed

lemma civil_range:
  "0 \<le> MonthFromDay z \<and> MonthFromDay z \<le> 11 \<and> 1 \<le> DateFromDay z
   \<and> DateFromDay z \<le> DaysInMonth (YearFromDay z) (MonthFromDay z + 1)"
proof -
  have "0 \<le> z - DayFromYear (YearFromDay z)" "z - DayFromYear (YearFromDay z) < DaysInYear (YearFromDay z)"
    using year_bracket [of z] year_length [of "YearFromDay z"] by linarith+
  from month_bracket [OF this] show ?thesis
    by (simp add: MonthFromDay_def DateFromDay_def Let_def)
qed

lemma civil_round_trip:
  assumes "1 \<le> M" "M \<le> 12" "1 \<le> D" "D \<le> DaysInMonth Y M"
  shows "YearFromDay (MakeDay Y (M - 1) D) = Y \<and> MonthFromDay (MakeDay Y (M - 1) D) = M - 1
         \<and> DateFromDay (MakeDay Y (M - 1) D) = D"
proof -
  have mk: "MakeDay Y (M - 1) D = DayFromYear Y + (DaysBeforeMonth (InLeapYear Y) (M - 1) + D - 1)"
    using assms(1,2) by (simp add: MakeDay_def)
  have p: "0 \<le> M - 1" "M - 1 \<le> 11" "1 \<le> D" "D \<le> DaysInMonth Y (M - 1 + 1)"
    using assms by simp_all
  note u = month_unique [OF p]
  have yr: "YearFromDay (MakeDay Y (M - 1) D) = Y"
    unfolding mk using u year_length [of Y] by (intro year_unique) linarith+
  have diy: "MakeDay Y (M - 1) D - DayFromYear Y = DaysBeforeMonth (InLeapYear Y) (M - 1) + D - 1"
    by (simp add: mk)
  have mo: "MonthFromDay (MakeDay Y (M - 1) D) = M - 1"
    unfolding MonthFromDay_def Let_def yr diy using u by blast
  have "DateFromDay (MakeDay Y (M - 1) D) = D"
    unfolding DateFromDay_def Let_def yr mo diy by simp
  with yr mo show ?thesis by simp
qed

lemma civil_valid_iff:
  "YearFromDay (MakeDay Y (M - 1) D) = Y \<and> MonthFromDay (MakeDay Y (M - 1) D) = M - 1
     \<and> DateFromDay (MakeDay Y (M - 1) D) = D
   \<longleftrightarrow> 1 \<le> M \<and> M \<le> 12 \<and> 1 \<le> D \<and> D \<le> DaysInMonth Y M"
  using civil_round_trip [of M D Y] civil_range [of "MakeDay Y (M - 1) D"]
  by auto


section \<open>The watermark of the poller\<close>

lemma process_loop_offered:
  "snd (process_loop gen last' ss (n, off)) =
     off @ filter (\<lambda>sid. sid \<noteq> [] \<and> \<not> (last' \<noteq> [] \<and> js_le sid last'))
             (map (\<lambda>s. the_str (sid_of s)) ss)"
  by (induction ss arbitrary: n off)
     (auto simp: the_str_def split: option.splits gen_result.splits)

text \<open>
  C1. The claim: when generation fails for an identifier, the persisted watermark is not
  advanced to or past it, and the next cycle offers it again. The loop keeps one variable
  \<open>newestSeen\<close> for the whole cycle and a later success overwrites it, so the claim fails
  on the code. The API answers with submissions 2 and 1, newest first; the watermark file
  does not exist; generation fails for 1 and succeeds for 2. The cycle offers 1 and 2 and
  writes the watermark 2. The next cycle, with a generator that would succeed on
  everything, offers nothing: 1 is at or below the watermark and is skipped.
\<close>

theorem watermark_advances_past_failed_record:
  "processNew
     \<lparr>fetched = Some [\<lparr>submission_id = None, id' = Some ''2''\<rparr>, \<lparr>submission_id = None, id' = Some ''1''\<rparr>],
      generate = (\<lambda>s. if sid_of s = Some ''1'' then GenFalse else GenTrue),
      write_ok = True\<rparr>
     None
   = (Some ''2'', [''1'', ''2''])
   \<and>
   processNew
     \<lparr>fetched = Some [\<lparr>submission_id = None, id' = Some ''2''\<rparr>, \<lparr>submission_id = None, id' = Some ''1''\<rparr>],
      generate = (\<lambda>s. GenTrue),
      write_ok = True\<rparr>
     (Some ''2'')
   = (Some ''2'', [])"
  by (simp add: processNew_def sid_of_def js_or_def truthy_def readLastProcessed_def
      writeLastProcessed_def js_le_def trim_def isWhiteSpace_def)

text \<open>
  C10, as stated: a fetched submission is skipped if and only if the stored watermark is
  not empty and the submission's identifier is at or below it as a string. A submission
  whose identifier is missing or empty is skipped whatever the watermark is: here the
  watermark file does not exist, the watermark read is empty, and the submission with the
  empty identifier is not offered to the generator.
\<close>

theorem skipped_without_watermark_counterexample:
  "\<not> (snd (processNew
            \<lparr>fetched = Some [\<lparr>submission_id = None, id' = Some ''''\<rparr>],
             generate = (\<lambda>s. GenTrue), write_ok = True\<rparr> None) = []
       \<longleftrightarrow> readLastProcessed None \<noteq> [] \<and> js_le '''' (readLastProcessed None))"
  by (simp add: processNew_def sid_of_def js_or_def truthy_def readLastProcessed_def)

text \<open>
  C10, amended: the identifiers one cycle offers to the generator are, in processing
  order (oldest first), those of the fetched submissions that are not empty and not
  skipped by the watermark; the watermark skips an identifier if and only if the stored
  watermark is not empty and the identifier is at or below it in the order of strings
  (code unit by code unit, a proper prefix first). That order is not the order of
  numbers: \<open>1000\<close> is below \<open>999\<close>, so with the watermark \<open>999\<close> the submission \<open>1000\<close>
  is skipped.
\<close>

theorem watermark_acceptance:
  "snd (processNew env f) =
     (case fetched env of
        None \<Rightarrow> []
      | Some submissions \<Rightarrow>
          filter (\<lambda>sid. sid \<noteq> [] \<and> \<not> (readLastProcessed f \<noteq> [] \<and> js_le sid (readLastProcessed f)))
            (map (\<lambda>s. the_str (sid_of s)) (rev submissions)))
   \<and> js_lt ''1000'' ''999'' \<and> \<not> js_le ''999'' ''1000'' \<and> js_le ''1000'' ''999''"
proof -
  have offered: "snd (processNew env f) =
     (case fetched env of
        None \<Rightarrow> []
      | Some submissions \<Rightarrow>
          filter (\<lambda>sid. sid \<noteq> [] \<and> \<not> (readLastProcessed f \<noteq> [] \<and> js_le sid (readLastProcessed f)))
            (map (\<lambda>s. the_str (sid_of s)) (rev submissions)))"
  proof (cases "fetched env")
    case None
    then show ?thesis by (simp add: processNew_def)
  next
    case (Some subs)
    show ?thesis
    proof (cases "subs = []")
      case True
      with Some show ?thesis by (simp add: processNew_def)
    next
      case False
      have "snd (processNew env f) =
          snd (process_loop (generate env) (readLastProcessed f) (rev subs) (readLastProcessed f, []))"
        using Some False by (simp add: processNew_def Let_def split: prod.splits)
      then show ?thesis
        using Some by (simp add: process_loop_offered)
    qed
  qed
  have order: "js_lt ''1000'' ''999'' \<and> \<not> js_le ''999'' ''1000'' \<and> js_le ''1000'' ''999''"
    by (simp add: js_le_def)
  from offered order show ?thesis by blast
qed

theorem watermark_acceptance_witness:
  "snd (processNew
          \<lparr>fetched = Some [\<lparr>submission_id = Some ''1000'', id' = None\<rparr>,
                           \<lparr>submission_id = Some ''999'', id' = None\<rparr>,
                           \<lparr>submission_id = None, id' = None\<rparr>,
                           \<lparr>submission_id = Some '''', id' = Some ''998''\<rparr>],
           generate = (\<lambda>s. GenThrows), write_ok = True\<rparr>
          (Some ''998 ''))
   = [''999'']"
  using watermark_acceptance
    [of "\<lparr>fetched = Some [\<lparr>submission_id = Some ''1000'', id' = None\<rparr>,
                           \<lparr>submission_id = Some ''999'', id' = None\<rparr>,
                           \<lparr>submission_id = None, id' = None\<rparr>,
                           \<lparr>submission_id = Some '''', id' = Some ''998''\<rparr>],
           generate = (\<lambda>s. GenThrows), write_ok = True\<rparr>" "Some ''998 ''"]
  by (simp add: sid_of_def js_or_def truthy_def readLastProcessed_def the_str_def js_le_def
      trim_def isWhiteSpace_def)


section \<open>The deterministic parser\<close>


lemma digit_not_space: "isDigit c \<Longrightarrow> \<not> isWhiteSpace c"
  by (auto simp: isDigit_def isWhiteSpace_def Let_def)

lemma digit_not_sep: "isDigit c \<Longrightarrow> \<not> isSep c"
  by (auto simp: isDigit_def isSep_def isWhiteSpace_def Let_def)

lemma sep_chars: "c \<in> set ''/-. '' \<Longrightarrow> isSep c \<and> \<not> isDigit c"
  by (auto simp: isDigit_def isSep_def isWhiteSpace_def Let_def)

lemma trim_id:
  assumes "s \<noteq> []" "\<not> isWhiteSpace (hd s)" "\<not> isWhiteSpace (last s)"
  shows "trim s = s"
proof -
  from assms(1,2) have a: "dropWhile isWhiteSpace s = s"
    by (cases s) auto
  from assms(1,3) have b: "dropWhile isWhiteSpace (rev s) = rev s"
    by (cases s rule: rev_cases) auto
  show ?thesis by (simp add: trim_def a b)
qed

lemma span_digits:
  assumes "list_all isDigit p" "\<not> isDigit c"
  shows "takeWhile isDigit (p @ c # r) = p" "dropWhile isDigit (p @ c # r) = c # r"
  using assms by (induction p) auto

lemma Number_zero: "Number (CHR ''0'' # ds) = Number ds"
  by (simp add: Number_def)

lemma Number_strip: "Number (dropWhile (\<lambda>c. c = CHR ''0'') ds) = Number ds"
  by (induction ds) (auto simp: Number_zero)

lemma lead_digits_short:
  assumes "1 \<le> length p" "length p \<le> 2"
  shows "\<exists>g. lead_digits p = Some g \<and> Number g = Number p"
proof -
  let ?r = "dropWhile (\<lambda>c. c = CHR ''0'') p"
  have len: "length ?r \<le> 2"
    using assms(2) length_dropWhile_le [of "\<lambda>c. c = CHR ''0''" p] by linarith
  have ne: "p \<noteq> []" using assms(1) by auto
  show ?thesis
  proof (cases "?r = []")
    case True
    have "Number p = Number ?r" by (simp only: Number_strip)
    also have "\<dots> = Number []" by (simp only: True)
    finally have "Number p = Number []" .
    then have "Number p = 0" by (simp add: Number_def)
    with True ne show ?thesis by (simp add: lead_digits_def Number_def)
  next
    case False
    with len ne show ?thesis by (auto simp: lead_digits_def Let_def Number_strip)
  qed
qed

lemma match_dmy_shape:
  assumes "list_all isDigit p1" "1 \<le> length p1" "length p1 \<le> 2"
    and "list_all isDigit p2" "1 \<le> length p2" "length p2 \<le> 2"
    and "list_all isDigit y" "2 \<le> length y" "length y \<le> 4"
    and "isSep c1" "\<not> isDigit c1" "isSep c2" "\<not> isDigit c2"
  shows "\<exists>g1 g2. match_dmy (p1 @ c1 # p2 @ c2 # y) = Some (g1, g2, y)
            \<and> Number g1 = Number p1 \<and> Number g2 = Number p2"
proof -
  obtain g1 where g1: "lead_digits p1 = Some g1" "Number g1 = Number p1"
    using lead_digits_short [OF assms(2,3)] by blast
  obtain g2 where g2: "lead_digits p2 = Some g2" "Number g2 = Number p2"
    using lead_digits_short [OF assms(5,6)] by blast
  have "match_dmy (p1 @ c1 # p2 @ c2 # y) = Some (g1, g2, y)"
    using assms g1 g2
    by (simp add: match_dmy_def span_digits)
  with g1 g2 show ?thesis by blast
qed


lemma LocalDay_new_Date:
  "LocalDay tz (new_Date tz y m d) = MakeDay (if 0 \<le> y \<and> y \<le> 99 then 1900 + y else y) m d"
  by (simp add: LocalDay_def new_Date_def msPerDay_def)

lemma same_parts_new_Date:
  "same_parts tz (new_Date tz y m d) Y M D
     = (YearFromDay (MakeDay (if 0 \<le> y \<and> y \<le> 99 then 1900 + y else y) m d) = Y
        \<and> MonthFromDay (MakeDay (if 0 \<le> y \<and> y \<le> 99 then 1900 + y else y) m d) = M - 1
        \<and> DateFromDay (MakeDay (if 0 \<le> y \<and> y \<le> 99 then 1900 + y else y) m d) = D)"
  by (simp add: same_parts_def getFullYear_def getMonth_def getDate_def LocalDay_new_Date)

lemma same_parts_valid:
  assumes "m = M - 1" and "\<not> (0 \<le> Y \<and> Y \<le> 99)"
  shows "same_parts tz (new_Date tz Y m D) Y M D
           \<longleftrightarrow> 1 \<le> M \<and> M \<le> 12 \<and> 1 \<le> D \<and> D \<le> DaysInMonth Y M"
proof -
  from assms(2) have "(if 0 \<le> Y \<and> Y \<le> 99 then 1900 + Y else Y) = Y"
    by simp
  then show ?thesis
    using civil_valid_iff [of Y M D] by (simp add: same_parts_new_Date assms(1))
qed

lemma getters_valid:
  assumes "m = M - 1" and "\<not> (0 \<le> Y \<and> Y \<le> 99)"
    and "1 \<le> M" "M \<le> 12" "1 \<le> D" "D \<le> DaysInMonth Y M"
  shows "getFullYear tz (new_Date tz Y m D) = Y" "getMonth tz (new_Date tz Y m D) = m"
    "getDate tz (new_Date tz Y m D) = D"
  using same_parts_valid [OF assms(1,2), of tz D] assms by (simp_all add: same_parts_def)

lemma trim_shape:
  assumes "list_all isDigit p1" "1 \<le> length p1" "list_all isDigit y" "2 \<le> length y"
  shows "trim (p1 @ c1 # p2 @ c2 # y) = p1 @ c1 # p2 @ c2 # y"
proof (rule trim_id)
  show "p1 @ c1 # p2 @ c2 # y \<noteq> []" by simp
  from assms(1,2) show "\<not> isWhiteSpace (hd (p1 @ c1 # p2 @ c2 # y))"
    by (cases p1) (auto simp: digit_not_space)
  from assms(4) have "y \<noteq> []" by auto
  moreover from this assms(3) have "isDigit (last y)"
    by (simp add: list_all_iff)
  ultimately have "y \<noteq> []" "isDigit (last y)" by blast+
  then show "\<not> isWhiteSpace (last (p1 @ c1 # p2 @ c2 # y))"
    by (simp add: digit_not_space)
qed

lemma parse_numeric_shape:
  assumes "list_all isDigit p1" "1 \<le> length p1" "length p1 \<le> 2"
    and "list_all isDigit p2" "1 \<le> length p2" "length p2 \<le> 2"
    and "list_all isDigit y" "2 \<le> length y" "length y \<le> 4"
    and "isSep c1" "\<not> isDigit c1" "isSep c2" "\<not> isDigit c2"
  shows "parseDateDeterministic tz (p1 @ c1 # p2 @ c2 # y) =
           (let day = Number p1; month = Number p2;
                year = (if Number y < 100 then 2000 + Number y else Number y);
                d = new_Date tz year (month - 1) day
            in if 1 \<le> month \<and> month \<le> 12 \<and> 1 \<le> day \<and> day \<le> 31 \<and> same_parts tz d year month day
               then Some (d, DMY) else None)"
proof -
  obtain g1 g2 where m: "match_dmy (p1 @ c1 # p2 @ c2 # y) = Some (g1, g2, y)"
    and n: "Number g1 = Number p1" "Number g2 = Number p2"
    using match_dmy_shape [OF assms] by blast
  have t: "trim (p1 @ c1 # p2 @ c2 # y) = p1 @ c1 # p2 @ c2 # y"
    using assms(1,2,7,8) by (rule trim_shape)
  show ?thesis
    by (simp add: parseDateDeterministic_def t m parse_dmy_def n Let_def)
qed

lemma Number_nonneg: "list_all isDigit ds \<Longrightarrow> 0 \<le> Number ds"
proof -
  have "0 \<le> foldl (\<lambda>n c. 10 * n + (int (of_char c) - 48)) acc ds"
    if "list_all isDigit ds" "0 \<le> acc" for acc
    using that
  proof (induction ds arbitrary: acc)
    case Nil
    then show ?case by simp
  next
    case (Cons c cs)
    from Cons.prems have "48 \<le> (of_char c :: nat)" by (simp add: isDigit_def Let_def)
    then have "0 \<le> 10 * acc + (int (of_char c) - 48)" using Cons.prems(2) by linarith
    with Cons show ?case by simp
  qed
  then show "list_all isDigit ds \<Longrightarrow> 0 \<le> Number ds"
    by (simp add: Number_def)
qed

lemma DaysInMonth_le_31: "DaysInMonth y m \<le> 31"
  by (simp add: DaysInMonth_def)

lemma parse_numeric_calendar:
  assumes "list_all isDigit p1" "1 \<le> length p1" "length p1 \<le> 2"
    and "list_all isDigit p2" "1 \<le> length p2" "length p2 \<le> 2"
    and "list_all isDigit y" "2 \<le> length y" "length y \<le> 4"
    and "isSep c1" "\<not> isDigit c1" "isSep c2" "\<not> isDigit c2"
  shows "parseDateDeterministic tz (p1 @ c1 # p2 @ c2 # y) =
           (if 1 \<le> Number p2 \<and> Number p2 \<le> 12 \<and> 1 \<le> Number p1
               \<and> Number p1 \<le> DaysInMonth (if Number y < 100 then 2000 + Number y else Number y) (Number p2)
            then Some (new_Date tz (if Number y < 100 then 2000 + Number y else Number y)
                         (Number p2 - 1) (Number p1), DMY)
            else None)"
proof -
  let ?year = "if Number y < 100 then 2000 + Number y else Number y"
  have "0 \<le> Number y" using assms(7) by (rule Number_nonneg)
  then have yr: "\<not> (0 \<le> ?year \<and> ?year \<le> 99)" by simp
  have v: "same_parts tz (new_Date tz ?year (Number p2 - 1) (Number p1)) ?year (Number p2) (Number p1)
      \<longleftrightarrow> 1 \<le> Number p2 \<and> Number p2 \<le> 12 \<and> 1 \<le> Number p1
          \<and> Number p1 \<le> DaysInMonth ?year (Number p2)"
    using yr by (intro same_parts_valid) simp_all
  have le: "Number p1 \<le> 31" if "Number p1 \<le> DaysInMonth ?year (Number p2)"
    using that DaysInMonth_le_31 [of ?year "Number p2"] by linarith
  show ?thesis
    unfolding parse_numeric_shape [OF assms] Let_def v using le by auto
qed

lemma parse_05_01_2026:
  "parseDateDeterministic tz ''05/01/2026'' = Some (new_Date tz 2026 0 5, DMY)"
  using parse_numeric_shape [of "''05''" "''01''" "''2026''" "CHR ''/''" "CHR ''/''" tz]
  by (simp add: isDigit_def isSep_def Number_def same_parts_valid DaysInMonth_def InLeapYear_def)

text \<open>
  C2. A numeric date string \<open>p1 sep p2 sep year\<close> (one or two digits, a separator among
  \<open>/ - .\<close> and the space, one or two digits, a separator, two to four digits) is always
  read day first: whenever the deterministic parser returns a date for it, the kind is
  \<open>DMY\<close>, the day of the date is \<open>p1\<close>, its month is \<open>p2\<close> and its year is the year
  written (2000 + year below 100); it returns nothing exactly when \<open>p2\<close> is not a month
  1..12 or \<open>p1\<close> is not a day of that month in that year, and never falls back to
  reading the month first. In particular \<open>05/01/2026\<close> is read as day 5, month 1, year
  2026. The time zone offset \<open>tz\<close> is arbitrary.
\<close>

theorem numeric_dates_are_day_first:
  assumes "list_all isDigit p1" "1 \<le> length p1" "length p1 \<le> 2"
    and "list_all isDigit p2" "1 \<le> length p2" "length p2 \<le> 2"
    and "list_all isDigit y" "2 \<le> length y" "length y \<le> 4"
    and "c1 \<in> set ''/-. ''" "c2 \<in> set ''/-. ''"
  shows "(\<forall>d k. parseDateDeterministic tz (p1 @ [c1] @ p2 @ [c2] @ y) = Some (d, k) \<longrightarrow>
              k = DMY \<and> getDate tz d = Number p1 \<and> getMonth tz d + 1 = Number p2
              \<and> getFullYear tz d = (if Number y < 100 then 2000 + Number y else Number y)
              \<and> d = new_Date tz (getFullYear tz d) (Number p2 - 1) (Number p1))
         \<and> (parseDateDeterministic tz (p1 @ [c1] @ p2 @ [c2] @ y) = None \<longleftrightarrow>
              \<not> (1 \<le> Number p2 \<and> Number p2 \<le> 12 \<and> 1 \<le> Number p1
                 \<and> Number p1 \<le> DaysInMonth (if Number y < 100 then 2000 + Number y else Number y)
                                 (Number p2)))
         \<and> (\<exists>d. parseDateDeterministic tz ''05/01/2026'' = Some (d, DMY)
                \<and> getDate tz d = 5 \<and> getMonth tz d + 1 = 1 \<and> getFullYear tz d = 2026)"
proof -
  have eq: "parseDateDeterministic tz (p1 @ [c1] @ p2 @ [c2] @ y) =
           (let day = Number p1; month = Number p2;
                year = (if Number y < 100 then 2000 + Number y else Number y);
                d = new_Date tz year (month - 1) day
            in if 1 \<le> month \<and> month \<le> 12 \<and> 1 \<le> day \<and> day \<le> 31 \<and> same_parts tz d year month day
               then Some (d, DMY) else None)"
    using parse_numeric_shape [OF assms(1-9), of c1 c2 tz] sep_chars [OF assms(10)] sep_chars [OF assms(11)]
    by simp
  have some: "\<forall>d k. parseDateDeterministic tz (p1 @ [c1] @ p2 @ [c2] @ y) = Some (d, k) \<longrightarrow>
              k = DMY \<and> getDate tz d = Number p1 \<and> getMonth tz d + 1 = Number p2
              \<and> getFullYear tz d = (if Number y < 100 then 2000 + Number y else Number y)
              \<and> d = new_Date tz (getFullYear tz d) (Number p2 - 1) (Number p1)"
    unfolding eq by (auto simp: Let_def same_parts_def split: if_splits)
  have none: "parseDateDeterministic tz (p1 @ [c1] @ p2 @ [c2] @ y) = None \<longleftrightarrow>
              \<not> (1 \<le> Number p2 \<and> Number p2 \<le> 12 \<and> 1 \<le> Number p1
                 \<and> Number p1 \<le> DaysInMonth (if Number y < 100 then 2000 + Number y else Number y)
                                 (Number p2))"
    using parse_numeric_calendar [OF assms(1-9), of c1 c2 tz] sep_chars [OF assms(10)]
      sep_chars [OF assms(11)]
    by simp
  have particular: "\<exists>d. parseDateDeterministic tz ''05/01/2026'' = Some (d, DMY)
                \<and> getDate tz d = 5 \<and> getMonth tz d + 1 = 1 \<and> getFullYear tz d = 2026"
    by (simp add: parse_05_01_2026 getters_valid [where M = 1] DaysInMonth_def InLeapYear_def)
  from some none particular show ?thesis by blast
qed

theorem numeric_dates_are_day_first_witness:
  "\<exists>d. parseDateDeterministic 3600000 ''13.2.99'' = Some (d, DMY)
      \<and> getDate 3600000 d = 13 \<and> getMonth 3600000 d + 1 = 2 \<and> getFullYear 3600000 d = 2099"
proof -
  have n: "Number ''13'' = 13" "Number ''2'' = 2" "Number ''99'' = 99"
    by (simp_all add: Number_def)
  have valid: "13 \<le> DaysInMonth 2099 2"
    by (simp add: DaysInMonth_def InLeapYear_def)
  have c: "(\<forall>d k. parseDateDeterministic 3600000 ''13.2.99'' = Some (d, k) \<longrightarrow>
              k = DMY \<and> getDate 3600000 d = 13 \<and> getMonth 3600000 d + 1 = 2
              \<and> getFullYear 3600000 d = 2099)
         \<and> parseDateDeterministic 3600000 ''13.2.99'' \<noteq> None"
    using numeric_dates_are_day_first
      [of "''13''" "''2''" "''99''" "CHR ''.''" "CHR ''.''" 3600000] valid
    by (simp add: isDigit_def n)
  then obtain d k where "parseDateDeterministic 3600000 ''13.2.99'' = Some (d, k)"
    by (cases "parseDateDeterministic 3600000 ''13.2.99''") auto
  with c show ?thesis by auto
qed

lemma digit_not_letter: "isDigit c \<Longrightarrow> \<not> isLetter c"
  by (auto simp: isDigit_def isLetter_def Let_def)

lemma day_month_excludes_month_day:
  assumes "match_day_month cleaned = Some m"
  shows "match_month_day cleaned = None"
proof -
  from assms have "takeWhile isDigit cleaned \<noteq> []"
    by (auto simp: match_day_month_def Let_def split: if_splits)
  then obtain c cs where "cleaned = c # cs" "isDigit c"
    by (cases cleaned) (auto split: if_splits)
  then have "takeWhile isLetter cleaned = []"
    by (simp add: digit_not_letter)
  then show ?thesis
    by (simp add: match_month_day_def)
qed

lemma parse_31_04_2025: "parseDateDeterministic tz ''31/04/2025'' = None"
  using parse_numeric_shape [of "''31''" "''04''" "''2025''" "CHR ''/''" "CHR ''/''" tz]
  by (simp add: isDigit_def isSep_def Number_def same_parts_valid DaysInMonth_def InLeapYear_def)

text \<open>
  C3. Whatever pattern matched the input, the deterministic parser returns nothing when
  the date rebuilt from the parsed day, month and year does not have exactly these
  components: after the numeric pattern, after the ISO pattern, and after either textual
  pattern. For the numeric dates this rejects every day beyond the length of its month
  (28, 29, 30 or 31 days, by the leap year rule), in every year and every time zone.
  Day 31 of April 2025 is rebuilt by \<open>new Date\<close> as the first of May, and \<open>31/04/2025\<close>
  is rejected, not moved to that day.
\<close>

theorem round_trip_guard:
  "(match_dmy (trim s) = Some (g1, g2, g3) \<longrightarrow>
      \<not> same_parts tz
          (new_Date tz (if Number g3 < 100 then 2000 + Number g3 else Number g3) (Number g2 - 1) (Number g1))
          (if Number g3 < 100 then 2000 + Number g3 else Number g3) (Number g2) (Number g1) \<longrightarrow>
      parseDateDeterministic tz s = None)
   \<and> (match_dmy (trim s) = None \<longrightarrow> match_iso (trim s) = Some (g1, g2, g3) \<longrightarrow>
      \<not> same_parts tz (new_Date tz (Number g1) (Number g2 - 1) (Number g3))
          (Number g1) (Number g2) (Number g3) \<longrightarrow>
      parseDateDeterministic tz s = None)
   \<and> (match_dmy (trim s) = None \<longrightarrow> match_iso (trim s) = None \<longrightarrow>
      match_day_month (cleaned_of (trim s)) = Some (g1, g2, g3) \<longrightarrow>
      map_of monthNames (toLowerCase g2) = Some month \<longrightarrow>
      \<not> same_parts tz (new_Date tz (Number g3) (month - 1) (Number g1)) (Number g3) month (Number g1) \<longrightarrow>
      parseDateDeterministic tz s = None)
   \<and> (match_dmy (trim s) = None \<longrightarrow> match_iso (trim s) = None \<longrightarrow>
      match_month_day (cleaned_of (trim s)) = Some (g1, g2, g3) \<longrightarrow>
      map_of monthNames (toLowerCase g1) = Some month \<longrightarrow>
      \<not> same_parts tz (new_Date tz (Number g3) (month - 1) (Number g2)) (Number g3) month (Number g2) \<longrightarrow>
      parseDateDeterministic tz s = None)
   \<and> (list_all isDigit p1 \<and> 1 \<le> length p1 \<and> length p1 \<le> 2
        \<and> list_all isDigit p2 \<and> 1 \<le> length p2 \<and> length p2 \<le> 2
        \<and> list_all isDigit y \<and> 2 \<le> length y \<and> length y \<le> 4
        \<and> c1 \<in> set ''/-. '' \<and> c2 \<in> set ''/-. ''
        \<and> DaysInMonth (if Number y < 100 then 2000 + Number y else Number y) (Number p2) < Number p1
      \<longrightarrow> parseDateDeterministic tz (p1 @ [c1] @ p2 @ [c2] @ y) = None)
   \<and> parseDateDeterministic tz ''31/04/2025'' = None
   \<and> getFullYear tz (new_Date tz 2025 3 31) = 2025
   \<and> getMonth tz (new_Date tz 2025 3 31) + 1 = 5
   \<and> getDate tz (new_Date tz 2025 3 31) = 1"
proof -
  have numeric: "match_dmy (trim s) = Some (g1, g2, g3) \<longrightarrow>
      \<not> same_parts tz
          (new_Date tz (if Number g3 < 100 then 2000 + Number g3 else Number g3) (Number g2 - 1) (Number g1))
          (if Number g3 < 100 then 2000 + Number g3 else Number g3) (Number g2) (Number g1) \<longrightarrow>
      parseDateDeterministic tz s = None"
    by (simp add: parseDateDeterministic_def parse_dmy_def Let_def)
  have iso: "match_dmy (trim s) = None \<longrightarrow> match_iso (trim s) = Some (g1, g2, g3) \<longrightarrow>
      \<not> same_parts tz (new_Date tz (Number g1) (Number g2 - 1) (Number g3))
          (Number g1) (Number g2) (Number g3) \<longrightarrow>
      parseDateDeterministic tz s = None"
    by (simp add: parseDateDeterministic_def parse_iso_def Let_def)
  have day_month: "match_dmy (trim s) = None \<longrightarrow> match_iso (trim s) = None \<longrightarrow>
      match_day_month (cleaned_of (trim s)) = Some (g1, g2, g3) \<longrightarrow>
      map_of monthNames (toLowerCase g2) = Some month \<longrightarrow>
      \<not> same_parts tz (new_Date tz (Number g3) (month - 1) (Number g1)) (Number g3) month (Number g1) \<longrightarrow>
      parseDateDeterministic tz s = None"
    by (simp add: parseDateDeterministic_def parse_textual_def parse_text_def Let_def
        day_month_excludes_month_day)
  have month_day: "match_dmy (trim s) = None \<longrightarrow> match_iso (trim s) = None \<longrightarrow>
      match_month_day (cleaned_of (trim s)) = Some (g1, g2, g3) \<longrightarrow>
      map_of monthNames (toLowerCase g1) = Some month \<longrightarrow>
      \<not> same_parts tz (new_Date tz (Number g3) (month - 1) (Number g2)) (Number g3) month (Number g2) \<longrightarrow>
      parseDateDeterministic tz s = None"
  proof (intro impI)
    assume a: "match_dmy (trim s) = None" "match_iso (trim s) = None"
      "match_month_day (cleaned_of (trim s)) = Some (g1, g2, g3)"
      "map_of monthNames (toLowerCase g1) = Some month"
      "\<not> same_parts tz (new_Date tz (Number g3) (month - 1) (Number g2)) (Number g3) month (Number g2)"
    have "match_day_month (cleaned_of (trim s)) = None"
      using a(3) day_month_excludes_month_day [of "cleaned_of (trim s)"]
      by (cases "match_day_month (cleaned_of (trim s))") auto
    with a show "parseDateDeterministic tz s = None"
      by (simp add: parseDateDeterministic_def parse_textual_def parse_text_def Let_def)
  qed
  have april: "getFullYear tz (new_Date tz 2025 3 31) = 2025
      \<and> getMonth tz (new_Date tz 2025 3 31) + 1 = 5 \<and> getDate tz (new_Date tz 2025 3 31) = 1"
  proof -
    have "new_Date tz 2025 3 31 = new_Date tz 2025 4 1"
      by (simp add: new_Date_def MakeDay_def DaysBeforeMonth_def InLeapYear_def)
    then show ?thesis
      by (simp add: getters_valid [where M = 5] DaysInMonth_def InLeapYear_def)
  qed
  have calendar: "list_all isDigit p1 \<and> 1 \<le> length p1 \<and> length p1 \<le> 2
        \<and> list_all isDigit p2 \<and> 1 \<le> length p2 \<and> length p2 \<le> 2
        \<and> list_all isDigit y \<and> 2 \<le> length y \<and> length y \<le> 4
        \<and> c1 \<in> set ''/-. '' \<and> c2 \<in> set ''/-. ''
        \<and> DaysInMonth (if Number y < 100 then 2000 + Number y else Number y) (Number p2) < Number p1
      \<longrightarrow> parseDateDeterministic tz (p1 @ [c1] @ p2 @ [c2] @ y) = None"
  proof (intro impI, elim conjE)
    assume a: "list_all isDigit p1" "1 \<le> length p1" "length p1 \<le> 2"
      "list_all isDigit p2" "1 \<le> length p2" "length p2 \<le> 2"
      "list_all isDigit y" "2 \<le> length y" "length y \<le> 4"
      and c: "c1 \<in> set ''/-. ''" "c2 \<in> set ''/-. ''"
      and late: "DaysInMonth (if Number y < 100 then 2000 + Number y else Number y) (Number p2)
                   < Number p1"
    show "parseDateDeterministic tz (p1 @ [c1] @ p2 @ [c2] @ y) = None"
      using parse_numeric_calendar [OF a, of c1 c2 tz] sep_chars [OF c(1)] sep_chars [OF c(2)] late
      by simp
  qed
  from numeric iso day_month month_day calendar april parse_31_04_2025 [of tz] show ?thesis
    by blast
qed


theorem round_trip_guard_witness:
  "match_dmy (trim ''31/04/2025'') = Some (''31'', ''4'', ''2025'')
   \<and> \<not> same_parts 0 (new_Date 0 2025 3 31) 2025 4 31
   \<and> parseDateDeterministic 0 ''31/04/2025'' = None"
proof -
  have m: "match_dmy (trim ''31/04/2025'') = Some (''31'', ''4'', ''2025'')"
    by code_simp
  have n: "Number ''31'' = 31" "Number ''4'' = 4" "Number ''2025'' = 2025"
    by (simp_all add: Number_def)
  have bad: "\<not> same_parts 0 (new_Date 0 2025 3 31) 2025 4 31"
    by (simp add: same_parts_valid DaysInMonth_def InLeapYear_def)
  from round_trip_guard [of "''31/04/2025''" "''31''" "''4''" "''2025''" 0] m bad
  have "parseDateDeterministic 0 ''31/04/2025'' = None"
    by (simp add: n)
  with m bad show ?thesis by simp
qed


section \<open>The artifact writer\<close>


lemma getters_jan5:
  "getDate tz (new_Date tz 2026 0 5) = 5" "getMonth tz (new_Date tz 2026 0 5) = 0"
  "getFullYear tz (new_Date tz 2026 0 5) = 2026"
  by (simp_all add: getters_valid [where M = 1] DaysInMonth_def InLeapYear_def)

lemma parse_5_1_26:
  "parseDateDeterministic tz ''5/1/26'' = Some (new_Date tz 2026 0 5, DMY)"
  using parse_numeric_shape [of "''5''" "''1''" "''26''" "CHR ''/''" "CHR ''/''" tz]
  by (simp add: isDigit_def isSep_def Number_def same_parts_valid DaysInMonth_def InLeapYear_def)

lemma safeDate_5_1_26: "safeDate_of tz ''5/1/26'' = ''5-1-2026''"
  by (simp add: safeDate_of_def parse_5_1_26 formatDateForFilename_def getters_jan5
      String_def digits.simps or_default_def)

lemma scenario_fields:
  "mapSheetRowToTemplateFields [(''Date'', ''5/1/26''), (''Name'', ''J Smith''), (''Job Number'', ''42'')]
     = \<lparr>NAME = ''J Smith'', DATE = ''5/1/26'', JOB_NO = ''42''\<rparr>"
  by (simp add: mapSheetRowToTemplateFields_def normalize_def toLowerCase_def trim_def
      isWhiteSpace_def)

lemma scenario_name:
  "outputName tz \<lparr>NAME = ''J Smith'', DATE = ''5/1/26'', JOB_NO = ''42''\<rparr> = ''5-1-2026-J Smith-42.docx''"
  by (simp add: outputName_def safeDate_5_1_26 safeFilename_def or_default_def hostile_def
      trim_def isWhiteSpace_def)

lemma final_5_1_2026: "FINAL_DATE_REGEX ''5-1-2026''"
  by (simp add: FINAL_DATE_REGEX_def isDigit_def year4_def)

text \<open>
  C7. The claim: in a dry run no file and no directory is created, modified or deleted.
  \<open>createDocx\<close> calls \<open>fs.ensureDirSync(OUTPUT_DIR)\<close> before it looks at the flag, so
  the claim fails on the code: with \<open>--dry\<close>, an existing template and no output
  directory, the call reports \<open>dry\<close> and the output directory has been created.
\<close>

theorem dry_run_creates_output_directory:
  "createDocx
     \<lparr>OUTPUT_DIR = ''/out'', FORCE = False, DRY = True, DAYS = 7, tza = 0,
      render = (\<lambda>tpl data. Some tpl)\<rparr>
     0
     \<lparr>template = Some ''template'', outdir = None, write_fails = {}, unlink_fails = {}\<rparr>
     \<lparr>NAME = ''J Smith'', DATE = ''5/1/26'', JOB_NO = ''42''\<rparr>
   = (Inr \<lparr>skipped = False, path = ''/out/5-1-2026-J Smith-42.docx'', dry = True\<rparr>,
      \<lparr>template = Some ''template'', outdir = Some [], write_fails = {}, unlink_fails = {}\<rparr>)"
  by (simp add: createDocx_def ensureDirSync_def safeDate_5_1_26 final_5_1_2026 scenario_name
      existsSync_def path_join_def)


lemma map_of_put_entry: "map_of (put_entry name f es) name = Some f"
  by (induction es) auto

lemma put_entry_new: "name \<notin> fst ` set es \<Longrightarrow> put_entry name f es = es @ [(name, f)]"
  by (induction es) auto

lemma ensureDirSync_exists: "existsSync fs name \<Longrightarrow> ensureDirSync fs = fs"
  by (auto simp: existsSync_def ensureDirSync_def split: option.splits)

lemma existsSync_ensureDirSync: "existsSync (ensureDirSync fs) name = existsSync fs name"
  by (auto simp: existsSync_def ensureDirSync_def split: option.splits)

lemma skip_leaves_filesystem:
  assumes "\<not> FORCE cfg" "existsSync fs (outputName (tza cfg) data)"
  shows "snd (createDocx cfg now fs data) = fs"
  using assms
  by (auto simp: createDocx_def Let_def ensureDirSync_exists split: option.splits)

text \<open>
  C6. For a record that has a target path (the template exists, rendering succeeds and the
  date token passes the file name check), with skip-if-exists being a run without
  \<open>--force\<close> and force-overwrite a run with \<open>--force\<close> and without \<open>--dry\<close>:
  without \<open>--force\<close>, when the target exists the call reports \<open>skipped\<close> and the file
  system is the one before; generating the same record twice (without \<open>--force\<close> and
  \<open>--dry\<close>, the target absent and writable at first) adds exactly one entry to the
  output directory, and the second call reports \<open>skipped\<close> and changes nothing; with
  \<open>--force\<close>, whether or not the target exists, a writable target is written with the
  rendered bytes and the call reports not skipped.
\<close>

theorem skip_if_exists_and_force_overwrite:
  assumes "template fs = Some tpl" and "render cfg tpl data = Some buf"
    and "safeDate_of (tza cfg) (DATE data) = ''nodate'' \<or> FINAL_DATE_REGEX (safeDate_of (tza cfg) (DATE data))"
  shows "(\<not> FORCE cfg \<longrightarrow> existsSync fs (outputName (tza cfg) data) \<longrightarrow>
            createDocx cfg now fs data =
              (Inr \<lparr>skipped = True, path = path_join (OUTPUT_DIR cfg) (outputName (tza cfg) data),
                    dry = False\<rparr>, fs))
       \<and> (\<not> FORCE cfg \<longrightarrow> \<not> DRY cfg \<longrightarrow> \<not> existsSync fs (outputName (tza cfg) data) \<longrightarrow>
            outputName (tza cfg) data \<notin> write_fails fs \<longrightarrow>
            (\<exists>fs1. createDocx cfg now fs data =
                     (Inr \<lparr>skipped = False, path = path_join (OUTPUT_DIR cfg) (outputName (tza cfg) data),
                           dry = False\<rparr>, fs1)
                 \<and> outdir fs1 =
                     Some ((case outdir fs of None \<Rightarrow> [] | Some es \<Rightarrow> es)
                           @ [(outputName (tza cfg) data, \<lparr>content = buf, mtimeMs = now\<rparr>)])
                 \<and> createDocx cfg now' fs1 data =
                     (Inr \<lparr>skipped = True, path = path_join (OUTPUT_DIR cfg) (outputName (tza cfg) data),
                           dry = False\<rparr>, fs1)))
       \<and> (FORCE cfg \<longrightarrow> \<not> DRY cfg \<longrightarrow> outputName (tza cfg) data \<notin> write_fails fs \<longrightarrow>
            (\<exists>fs1 es1. createDocx cfg now fs data =
                     (Inr \<lparr>skipped = False, path = path_join (OUTPUT_DIR cfg) (outputName (tza cfg) data),
                           dry = False\<rparr>, fs1)
                 \<and> outdir fs1 = Some es1
                 \<and> map_of es1 (outputName (tza cfg) data) = Some \<lparr>content = buf, mtimeMs = now\<rparr>))"
proof -
  let ?name = "outputName (tza cfg) data"
  let ?path = "path_join (OUTPUT_DIR cfg) ?name"
  have ok: "\<not> (safeDate_of (tza cfg) (DATE data) \<noteq> ''nodate''
              \<and> \<not> FINAL_DATE_REGEX (safeDate_of (tza cfg) (DATE data)))"
    using assms(3) by blast
  have skip: "\<not> FORCE cfg \<longrightarrow> existsSync fs ?name \<longrightarrow>
      createDocx cfg now fs data = (Inr \<lparr>skipped = True, path = ?path, dry = False\<rparr>, fs)"
    using assms(1,2) ok
    by (auto simp: createDocx_def Let_def ensureDirSync_exists)
  have twice: "\<not> FORCE cfg \<longrightarrow> \<not> DRY cfg \<longrightarrow> \<not> existsSync fs ?name \<longrightarrow> ?name \<notin> write_fails fs \<longrightarrow>
      (\<exists>fs1. createDocx cfg now fs data = (Inr \<lparr>skipped = False, path = ?path, dry = False\<rparr>, fs1)
         \<and> outdir fs1 = Some ((case outdir fs of None \<Rightarrow> [] | Some es \<Rightarrow> es)
                                @ [(?name, \<lparr>content = buf, mtimeMs = now\<rparr>)])
         \<and> createDocx cfg now' fs1 data = (Inr \<lparr>skipped = True, path = ?path, dry = False\<rparr>, fs1))"
  proof (intro impI)
    assume a: "\<not> FORCE cfg" "\<not> DRY cfg" "\<not> existsSync fs ?name" "?name \<notin> write_fails fs"
    define es where "es = (case outdir fs of None \<Rightarrow> [] | Some es \<Rightarrow> es)"
    define fs1 where "fs1 = fs\<lparr>outdir := Some (es @ [(?name, \<lparr>content = buf, mtimeMs = now\<rparr>)])\<rparr>"
    have fresh: "?name \<notin> fst ` set es"
      using a(3) by (auto simp: es_def existsSync_def split: option.splits)
    have e: "outdir (ensureDirSync fs) = Some es" "write_fails (ensureDirSync fs) = write_fails fs"
      by (auto simp: es_def ensureDirSync_def split: option.splits)
    have w: "writeFileSync now (ensureDirSync fs) ?name buf = Some fs1"
      using a(4) e fresh
      by (auto simp: writeFileSync_def fs1_def put_entry_new ensureDirSync_def split: option.splits)
    have first: "createDocx cfg now fs data = (Inr \<lparr>skipped = False, path = ?path, dry = False\<rparr>, fs1)"
      using assms(1,2) ok a w
      by (simp add: createDocx_def Let_def existsSync_ensureDirSync)
    have ex1: "existsSync fs1 ?name" "template fs1 = Some tpl"
      using assms(1) by (simp_all add: fs1_def existsSync_def)
    have second: "createDocx cfg now' fs1 data = (Inr \<lparr>skipped = True, path = ?path, dry = False\<rparr>, fs1)"
      using assms(2) ok a(1) ex1
      by (auto simp: createDocx_def Let_def ensureDirSync_exists)
    have "outdir fs1 = Some (es @ [(?name, \<lparr>content = buf, mtimeMs = now\<rparr>)])"
      by (simp add: fs1_def)
    with first second show "\<exists>fs1. createDocx cfg now fs data = (Inr \<lparr>skipped = False, path = ?path, dry = False\<rparr>, fs1)
         \<and> outdir fs1 = Some ((case outdir fs of None \<Rightarrow> [] | Some es \<Rightarrow> es)
                                @ [(?name, \<lparr>content = buf, mtimeMs = now\<rparr>)])
         \<and> createDocx cfg now' fs1 data = (Inr \<lparr>skipped = True, path = ?path, dry = False\<rparr>, fs1)"
      unfolding es_def by blast
  qed
  have force: "FORCE cfg \<longrightarrow> \<not> DRY cfg \<longrightarrow> ?name \<notin> write_fails fs \<longrightarrow>
      (\<exists>fs1 es1. createDocx cfg now fs data = (Inr \<lparr>skipped = False, path = ?path, dry = False\<rparr>, fs1)
         \<and> outdir fs1 = Some es1
         \<and> map_of es1 ?name = Some \<lparr>content = buf, mtimeMs = now\<rparr>)"
  proof (intro impI)
    assume a: "FORCE cfg" "\<not> DRY cfg" "?name \<notin> write_fails fs"
    have "outdir (ensureDirSync fs) \<noteq> None"
      by (cases "outdir fs") (simp_all add: ensureDirSync_def)
    then obtain es where e: "outdir (ensureDirSync fs) = Some es"
      by blast
    have wf: "write_fails (ensureDirSync fs) = write_fails fs"
      by (auto simp: ensureDirSync_def split: option.splits)
    let ?fs1 = "(ensureDirSync fs)\<lparr>outdir := Some (put_entry ?name \<lparr>content = buf, mtimeMs = now\<rparr> es)\<rparr>"
    have w: "writeFileSync now (ensureDirSync fs) ?name buf = Some ?fs1"
      using a(3) e wf by (simp add: writeFileSync_def)
    have "createDocx cfg now fs data = (Inr \<lparr>skipped = False, path = ?path, dry = False\<rparr>, ?fs1)"
      using assms(1,2) ok a w by (simp add: createDocx_def Let_def)
    moreover have "outdir ?fs1 = Some (put_entry ?name \<lparr>content = buf, mtimeMs = now\<rparr> es)"
      by simp
    ultimately show "\<exists>fs1 es1. createDocx cfg now fs data = (Inr \<lparr>skipped = False, path = ?path, dry = False\<rparr>, fs1)
         \<and> outdir fs1 = Some es1
         \<and> map_of es1 ?name = Some \<lparr>content = buf, mtimeMs = now\<rparr>"
      using map_of_put_entry by blast
  qed
  from skip twice force show ?thesis by blast
qed


theorem skip_if_exists_and_force_overwrite_witness:
  "(\<exists>fs1. createDocx
            \<lparr>OUTPUT_DIR = ''/out'', FORCE = False, DRY = False, DAYS = 7, tza = 0,
             render = (\<lambda>tpl data. Some (tpl @ NAME data))\<rparr>
            1000
            \<lparr>template = Some ''template '', outdir = None, write_fails = {}, unlink_fails = {}\<rparr>
            \<lparr>NAME = ''J Smith'', DATE = ''5/1/26'', JOB_NO = ''42''\<rparr>
          = (Inr \<lparr>skipped = False, path = ''/out/5-1-2026-J Smith-42.docx'', dry = False\<rparr>, fs1)
      \<and> outdir fs1 =
            Some [(''5-1-2026-J Smith-42.docx'', \<lparr>content = ''template J Smith'', mtimeMs = 1000\<rparr>)]
      \<and> createDocx
            \<lparr>OUTPUT_DIR = ''/out'', FORCE = False, DRY = False, DAYS = 7, tza = 0,
             render = (\<lambda>tpl data. Some (tpl @ NAME data))\<rparr>
            2000 fs1
            \<lparr>NAME = ''J Smith'', DATE = ''5/1/26'', JOB_NO = ''42''\<rparr>
          = (Inr \<lparr>skipped = True, path = ''/out/5-1-2026-J Smith-42.docx'', dry = False\<rparr>, fs1))
   \<and> (\<exists>fs1 es1. createDocx
            \<lparr>OUTPUT_DIR = ''/out'', FORCE = True, DRY = False, DAYS = 7, tza = 0,
             render = (\<lambda>tpl data. Some (tpl @ NAME data))\<rparr>
            3000
            \<lparr>template = Some ''template '',
             outdir = Some [(''5-1-2026-J Smith-42.docx'', \<lparr>content = ''old'', mtimeMs = 1000\<rparr>)],
             write_fails = {}, unlink_fails = {}\<rparr>
            \<lparr>NAME = ''J Smith'', DATE = ''5/1/26'', JOB_NO = ''42''\<rparr>
          = (Inr \<lparr>skipped = False, path = ''/out/5-1-2026-J Smith-42.docx'', dry = False\<rparr>, fs1)
      \<and> outdir fs1 = Some es1
      \<and> map_of es1 ''5-1-2026-J Smith-42.docx'' = Some \<lparr>content = ''template J Smith'', mtimeMs = 3000\<rparr>)"
proof -
  have first: "(\<exists>fs1. createDocx
            \<lparr>OUTPUT_DIR = ''/out'', FORCE = False, DRY = False, DAYS = 7, tza = 0,
             render = (\<lambda>tpl data. Some (tpl @ NAME data))\<rparr>
            1000
            \<lparr>template = Some ''template '', outdir = None, write_fails = {}, unlink_fails = {}\<rparr>
            \<lparr>NAME = ''J Smith'', DATE = ''5/1/26'', JOB_NO = ''42''\<rparr>
          = (Inr \<lparr>skipped = False, path = ''/out/5-1-2026-J Smith-42.docx'', dry = False\<rparr>, fs1)
      \<and> outdir fs1 =
            Some [(''5-1-2026-J Smith-42.docx'', \<lparr>content = ''template J Smith'', mtimeMs = 1000\<rparr>)]
      \<and> createDocx
            \<lparr>OUTPUT_DIR = ''/out'', FORCE = False, DRY = False, DAYS = 7, tza = 0,
             render = (\<lambda>tpl data. Some (tpl @ NAME data))\<rparr>
            2000 fs1
            \<lparr>NAME = ''J Smith'', DATE = ''5/1/26'', JOB_NO = ''42''\<rparr>
          = (Inr \<lparr>skipped = True, path = ''/out/5-1-2026-J Smith-42.docx'', dry = False\<rparr>, fs1))"
    using skip_if_exists_and_force_overwrite
      [of "\<lparr>template = Some ''template '', outdir = None, write_fails = {}, unlink_fails = {}\<rparr>"
          "''template ''"
          "\<lparr>OUTPUT_DIR = ''/out'', FORCE = False, DRY = False, DAYS = 7, tza = 0,
             render = (\<lambda>tpl data. Some (tpl @ NAME data))\<rparr>"
          "\<lparr>NAME = ''J Smith'', DATE = ''5/1/26'', JOB_NO = ''42''\<rparr>"
          "''template J Smith''" 1000 2000]
    by (simp add: safeDate_5_1_26 final_5_1_2026 scenario_name existsSync_def path_join_def)
  have second: "(\<exists>fs1 es1. createDocx
            \<lparr>OUTPUT_DIR = ''/out'', FORCE = True, DRY = False, DAYS = 7, tza = 0,
             render = (\<lambda>tpl data. Some (tpl @ NAME data))\<rparr>
            3000
            \<lparr>template = Some ''template '',
             outdir = Some [(''5-1-2026-J Smith-42.docx'', \<lparr>content = ''old'', mtimeMs = 1000\<rparr>)],
             write_fails = {}, unlink_fails = {}\<rparr>
            \<lparr>NAME = ''J Smith'', DATE = ''5/1/26'', JOB_NO = ''42''\<rparr>
          = (Inr \<lparr>skipped = False, path = ''/out/5-1-2026-J Smith-42.docx'', dry = False\<rparr>, fs1)
      \<and> outdir fs1 = Some es1
      \<and> map_of es1 ''5-1-2026-J Smith-42.docx'' = Some \<lparr>content = ''template J Smith'', mtimeMs = 3000\<rparr>)"
    using skip_if_exists_and_force_overwrite
      [of "\<lparr>template = Some ''template '',
             outdir = Some [(''5-1-2026-J Smith-42.docx'', \<lparr>content = ''old'', mtimeMs = 1000\<rparr>)],
             write_fails = {}, unlink_fails = {}\<rparr>"
          "''template ''"
          "\<lparr>OUTPUT_DIR = ''/out'', FORCE = True, DRY = False, DAYS = 7, tza = 0,
             render = (\<lambda>tpl data. Some (tpl @ NAME data))\<rparr>"
          "\<lparr>NAME = ''J Smith'', DATE = ''5/1/26'', JOB_NO = ''42''\<rparr>"
          "''template J Smith''" 3000 0]
    by (simp add: safeDate_5_1_26 final_5_1_2026 scenario_name path_join_def)
  from first second show ?thesis by blast
qed


section \<open>File names\<close>

lemma set_trim: "set (trim s) \<subseteq> set s"
proof -
  have "set (trim s) \<subseteq> set (dropWhile isWhiteSpace s)"
    unfolding trim_def using set_dropWhileD by fastforce
  also have "\<dots> \<subseteq> set s"
    using set_dropWhileD by fastforce
  finally show ?thesis .
qed

lemma safeFilename_not_hostile: "list_all (\<lambda>c. \<not> hostile c) (safeFilename s)"
proof -
  have dash: "\<not> hostile (CHR ''-'')" by (simp add: hostile_def)
  have "\<not> hostile c" if "c \<in> set (map (\<lambda>c. if hostile c then CHR ''-'' else c) s)" for c
  proof -
    from that have "c \<in> (\<lambda>c. if hostile c then CHR ''-'' else c) ` set s" by simp
    then obtain x where "c = (if hostile x then CHR ''-'' else x)" by (rule imageE)
    with dash show ?thesis by (cases "hostile x") simp_all
  qed
  moreover have "set (safeFilename s) \<subseteq> set (map (\<lambda>c. if hostile c then CHR ''-'' else c) s)"
    unfolding safeFilename_def by (rule set_trim)
  ultimately show ?thesis
    unfolding list_all_iff by blast
qed

lemma trim_ends: "trim s = [] \<or> (\<not> isWhiteSpace (hd (trim s)) \<and> \<not> isWhiteSpace (last (trim s)))"
proof (cases "dropWhile isWhiteSpace s")
  case Nil
  have "trim s = []" unfolding trim_def Nil by simp
  then show ?thesis by simp
next
  case (Cons b bs)
  then have nb: "\<not> isWhiteSpace b"
    using hd_dropWhile [of isWhiteSpace s] by simp
  have "rev (dropWhile isWhiteSpace (rev (b # bs))) = b # rev (dropWhile isWhiteSpace (rev bs))"
    using nb by (simp add: dropWhile_append3)
  then have t: "trim s = b # rev (dropWhile isWhiteSpace (rev bs))"
    by (simp add: trim_def Cons)
  have "\<not> isWhiteSpace (last (trim s))"
  proof (cases "dropWhile isWhiteSpace (rev bs)")
    case Nil
    with t nb show ?thesis by simp
  next
    case (Cons c cs)
    then have "\<not> isWhiteSpace c"
      using hd_dropWhile [of isWhiteSpace "rev bs"] by simp
    with t Cons show ?thesis by simp
  qed
  with t nb show ?thesis by simp
qed

lemma trim_decompose:
  "\<exists>pre post. s = pre @ trim s @ post \<and> list_all isWhiteSpace pre \<and> list_all isWhiteSpace post"
proof -
  let ?u = "dropWhile isWhiteSpace s"
  have a: "s = takeWhile isWhiteSpace s @ ?u" by simp
  have "rev (takeWhile isWhiteSpace (rev ?u) @ dropWhile isWhiteSpace (rev ?u)) = ?u"
    by (simp only: takeWhile_dropWhile_id rev_rev_ident)
  then have "rev (dropWhile isWhiteSpace (rev ?u)) @ rev (takeWhile isWhiteSpace (rev ?u)) = ?u"
    by (simp only: rev_append)
  then have b: "?u = trim s @ rev (takeWhile isWhiteSpace (rev ?u))"
    by (simp only: trim_def)
  have c: "list_all isWhiteSpace (takeWhile isWhiteSpace xs)" for xs
    by (induction xs) simp_all
  have d: "list_all isWhiteSpace (rev (takeWhile isWhiteSpace (rev ?u)))"
    using c [of "rev ?u"] by (simp add: list_all_iff)
  from a b have "s = takeWhile isWhiteSpace s @ trim s @ rev (takeWhile isWhiteSpace (rev ?u))"
    by (simp only:)
  with c [of s] d show ?thesis by blast
qed

lemma createDocx_path_fst:
  "(case fst (createDocx cfg now fs data) of
      Inl e \<Rightarrow> True
    | Inr r \<Rightarrow> path r = path_join (OUTPUT_DIR cfg) (outputName (tza cfg) data))"
  by (simp add: createDocx_def Let_def split: option.splits)

lemma createDocx_path:
  "createDocx cfg now fs data = (Inr r, fs') \<Longrightarrow>
     path r = path_join (OUTPUT_DIR cfg) (outputName (tza cfg) data)"
  using createDocx_path_fst [where cfg = cfg and now = now and fs = fs and data = data] by simp

text \<open>
  C8, as stated: the record \<open>{Date: "5/1/26", Name: "J Smith", "Job Number": "42"}\<close> is
  written to \<open>5-1-2026-J_Smith-42\<close> in the output directory, and sanitisation strips
  path-hostile characters and collapses white space. \<open>safeFilename\<close> replaces each of
  \<open>/ \ ? % * : | " < >\<close> by a dash and trims the ends; it leaves white space inside a
  name as it is. The record is written to \<open>5-1-2026-J Smith-42.docx\<close>, with the space.
\<close>

theorem scenario_path_counterexample:
  "fst (createDocx
         \<lparr>OUTPUT_DIR = ''/out'', FORCE = False, DRY = False, DAYS = 7, tza = 0,
          render = (\<lambda>tpl data. Some tpl)\<rparr>
         1000
         \<lparr>template = Some ''template'', outdir = Some [], write_fails = {}, unlink_fails = {}\<rparr>
         (mapSheetRowToTemplateFields
            [(''Date'', ''5/1/26''), (''Name'', ''J Smith''), (''Job Number'', ''42'')]))
     = Inr \<lparr>skipped = False, path = ''/out/5-1-2026-J Smith-42.docx'', dry = False\<rparr>
   \<and> fst (createDocx
         \<lparr>OUTPUT_DIR = ''/out'', FORCE = False, DRY = False, DAYS = 7, tza = 0,
          render = (\<lambda>tpl data. Some tpl)\<rparr>
         1000
         \<lparr>template = Some ''template'', outdir = Some [], write_fails = {}, unlink_fails = {}\<rparr>
         (mapSheetRowToTemplateFields
            [(''Date'', ''5/1/26''), (''Name'', ''J Smith''), (''Job Number'', ''42'')]))
     \<noteq> Inr \<lparr>skipped = False, path = ''/out/5-1-2026-J_Smith-42.docx'', dry = False\<rparr>
   \<and> safeFilename ''J   Smith'' = ''J   Smith''
   \<and> safeFilename ''a/b'' = ''a-b''"
  by (simp add: scenario_fields createDocx_def ensureDirSync_def safeDate_5_1_26 final_5_1_2026
      scenario_name existsSync_def path_join_def writeFileSync_def Let_def
      safeFilename_def hostile_def trim_def isWhiteSpace_def)

text \<open>
  C8, amended: the row \<open>{Date: "5/1/26", Name: "J Smith", "Job Number": "42"}\<close> maps to
  the template fields of the same values; its date resolves, day first, to 5 January
  2026 in every time zone; whenever \<open>createDocx\<close> returns a result for it, the path is
  \<open>5-1-2026-J Smith-42.docx\<close> in the output directory. For every string \<open>s\<close>, the
  sanitised name is \<open>s\<close> with each of the characters \<open>/ \ ? % * : | " < >\<close> replaced
  by a dash, less a run of white space at the front and a run of white space at the
  back, and it has no white space at either end: this determines the sanitised name,
  every character between its ends is kept in place, so white space inside a name is
  neither removed nor collapsed. Hence the sanitised name has none of the replaced
  characters; a string without white space is changed only by the replacement; and a
  string without such characters and without white space at its ends is returned as it
  is.
\<close>

theorem scenario_path_and_sanitisation:
  "mapSheetRowToTemplateFields [(''Date'', ''5/1/26''), (''Name'', ''J Smith''), (''Job Number'', ''42'')]
     = \<lparr>NAME = ''J Smith'', DATE = ''5/1/26'', JOB_NO = ''42''\<rparr>
   \<and> (\<exists>d. parseDateDeterministic tz ''5/1/26'' = Some (d, DMY)
          \<and> getFullYear tz d = 2026 \<and> getMonth tz d + 1 = 1 \<and> getDate tz d = 5)
   \<and> (\<forall>r fs'. createDocx cfg now fs \<lparr>NAME = ''J Smith'', DATE = ''5/1/26'', JOB_NO = ''42''\<rparr> = (Inr r, fs')
          \<longrightarrow> path r = path_join (OUTPUT_DIR cfg) ''5-1-2026-J Smith-42.docx'')
   \<and> (\<exists>pre post. map (\<lambda>c. if hostile c then CHR ''-'' else c) s = pre @ safeFilename s @ post
          \<and> list_all isWhiteSpace pre \<and> list_all isWhiteSpace post)
   \<and> (safeFilename s = [] \<or>
        (\<not> isWhiteSpace (hd (safeFilename s)) \<and> \<not> isWhiteSpace (last (safeFilename s))))
   \<and> list_all (\<lambda>c. \<not> hostile c) (safeFilename s)
   \<and> (list_all (\<lambda>c. \<not> isWhiteSpace c) s
        \<longrightarrow> safeFilename s = map (\<lambda>c. if hostile c then CHR ''-'' else c) s)
   \<and> (s \<noteq> [] \<and> list_all (\<lambda>c. \<not> hostile c) s \<and> \<not> isWhiteSpace (hd s) \<and> \<not> isWhiteSpace (last s)
        \<longrightarrow> safeFilename s = s)"
proof -
  have pin: "\<exists>pre post. map (\<lambda>c. if hostile c then CHR ''-'' else c) s = pre @ safeFilename s @ post
          \<and> list_all isWhiteSpace pre \<and> list_all isWhiteSpace post"
    unfolding safeFilename_def by (rule trim_decompose)
  have date: "\<exists>d. parseDateDeterministic tz ''5/1/26'' = Some (d, DMY)
          \<and> getFullYear tz d = 2026 \<and> getMonth tz d + 1 = 1 \<and> getDate tz d = 5"
    by (simp add: parse_5_1_26 getters_jan5)
  have p: "\<forall>r fs'. createDocx cfg now fs \<lparr>NAME = ''J Smith'', DATE = ''5/1/26'', JOB_NO = ''42''\<rparr> = (Inr r, fs')
          \<longrightarrow> path r = path_join (OUTPUT_DIR cfg) ''5-1-2026-J Smith-42.docx''"
    using createDocx_path [of cfg now fs "\<lparr>NAME = ''J Smith'', DATE = ''5/1/26'', JOB_NO = ''42''\<rparr>"]
    by (simp add: scenario_name)
  have ends: "safeFilename s = [] \<or>
        (\<not> isWhiteSpace (hd (safeFilename s)) \<and> \<not> isWhiteSpace (last (safeFilename s)))"
    unfolding safeFilename_def by (rule trim_ends)
  have keep: "s \<noteq> [] \<and> list_all (\<lambda>c. \<not> hostile c) s \<and> \<not> isWhiteSpace (hd s) \<and> \<not> isWhiteSpace (last s)
        \<longrightarrow> safeFilename s = s"
  proof (intro impI, elim conjE)
    assume a: "s \<noteq> []" "list_all (\<lambda>c. \<not> hostile c) s" "\<not> isWhiteSpace (hd s)" "\<not> isWhiteSpace (last s)"
    from a(2) have "map (\<lambda>c. if hostile c then CHR ''-'' else c) s = s"
      by (induction s) auto
    with a show "safeFilename s = s"
      by (simp add: safeFilename_def trim_id)
  qed
  have subst: "list_all (\<lambda>c. \<not> isWhiteSpace c) s
        \<longrightarrow> safeFilename s = map (\<lambda>c. if hostile c then CHR ''-'' else c) s"
  proof
    assume a: "list_all (\<lambda>c. \<not> isWhiteSpace c) s"
    have dash: "\<not> isWhiteSpace (CHR ''-'')" by (simp add: isWhiteSpace_def)
    let ?m = "map (\<lambda>c. if hostile c then CHR ''-'' else c) s"
    have all: "list_all (\<lambda>c. \<not> isWhiteSpace c) ?m"
      using a dash by (induction s) auto
    show "safeFilename s = ?m"
    proof (cases "?m = []")
      case True
      then show ?thesis by (simp add: safeFilename_def trim_def)
    next
      case False
      then have "hd ?m \<in> set ?m" "last ?m \<in> set ?m"
        by (rule hd_in_set, rule last_in_set)
      with all have "\<not> isWhiteSpace (hd ?m)" "\<not> isWhiteSpace (last ?m)"
        unfolding list_all_iff by blast+
      with False show ?thesis
        unfolding safeFilename_def by (rule trim_id)
    qed
  qed
  from scenario_fields date p pin safeFilename_not_hostile [of s] ends keep subst show ?thesis
    by blast
qed

theorem scenario_path_and_sanitisation_witness:
  "list_all (\<lambda>c. \<not> hostile c) ''J   Smith'' \<and> \<not> isWhiteSpace (hd ''J   Smith'')
   \<and> \<not> isWhiteSpace (last ''J   Smith'') \<and> safeFilename ''J   Smith'' = ''J   Smith''
   \<and> safeFilename '' J Smith '' = ''J Smith''
   \<and> safeFilename ''J / Smith'' = ''J - Smith''"
proof -
  have a: "list_all (\<lambda>c. \<not> hostile c) ''J   Smith'' \<and> \<not> isWhiteSpace (hd ''J   Smith'')
      \<and> \<not> isWhiteSpace (last ''J   Smith'') \<and> safeFilename ''J   Smith'' = ''J   Smith''"
    using scenario_path_and_sanitisation
      [of 0 "\<lparr>OUTPUT_DIR = ''/out'', FORCE = False, DRY = False, DAYS = 7, tza = 0,
               render = (\<lambda>tpl data. Some tpl)\<rparr>"
          1000 "\<lparr>template = Some ''template'', outdir = Some [], write_fails = {}, unlink_fails = {}\<rparr>"
          "''J   Smith''"]
    by (simp add: hostile_def isWhiteSpace_def)
  have b: "safeFilename '' J Smith '' = ''J Smith''" "safeFilename ''J / Smith'' = ''J - Smith''"
    by (simp_all add: safeFilename_def hostile_def trim_def isWhiteSpace_def)
  from a b show ?thesis by simp
qed


section \<open>The retention filter\<close>

lemma keep_iff:
  "keep cfg now r \<longleftrightarrow>
     (\<exists>d k. parseDateDeterministic (tza cfg) (dateStr_of r) = Some (d, k)
            \<and> now - DAYS cfg * 86400 * 1000 \<le> getTime d)"
  by (auto simp: keep_def Let_def split: option.splits)

text \<open>
  C5. With a window of \<open>DAYS > 0\<close> days the filter keeps, in order, exactly the rows whose
  date string resolves to a date at or after \<open>now - DAYS * 86400 s\<close> (in milliseconds, as
  the code counts): a row whose date is exactly the cutoff is kept, a row one second
  older is dropped, and a row whose date does not resolve is dropped. With \<open>DAYS \<le> 0\<close>
  every row is kept.
\<close>

theorem retention_window:
  "(0 < DAYS cfg \<longrightarrow>
      days_filter cfg now rows =
        filter (\<lambda>r. \<exists>d k. parseDateDeterministic (tza cfg) (dateStr_of r) = Some (d, k)
                          \<and> now - DAYS cfg * 86400 * 1000 \<le> getTime d) rows)
   \<and> (DAYS cfg \<le> 0 \<longrightarrow> days_filter cfg now rows = rows)
   \<and> (0 < DAYS cfg \<longrightarrow> parseDateDeterministic (tza cfg) (dateStr_of r) = Some (d, k) \<longrightarrow>
        getTime d = now - DAYS cfg * 86400 * 1000 \<longrightarrow> days_filter cfg now [r] = [r])
   \<and> (0 < DAYS cfg \<longrightarrow> parseDateDeterministic (tza cfg) (dateStr_of r) = Some (d, k) \<longrightarrow>
        getTime d = now - DAYS cfg * 86400 * 1000 - 1000 \<longrightarrow> days_filter cfg now [r] = [])
   \<and> (0 < DAYS cfg \<longrightarrow> parseDateDeterministic (tza cfg) (dateStr_of r) = None \<longrightarrow>
        days_filter cfg now [r] = [])"
proof -
  have window: "0 < DAYS cfg \<longrightarrow>
      days_filter cfg now rows =
        filter (\<lambda>r. \<exists>d k. parseDateDeterministic (tza cfg) (dateStr_of r) = Some (d, k)
                          \<and> now - DAYS cfg * 86400 * 1000 \<le> getTime d) rows"
    by (simp add: days_filter_def keep_iff cong: filter_cong)
  have off: "DAYS cfg \<le> 0 \<longrightarrow> days_filter cfg now rows = rows"
    by (simp add: days_filter_def)
  have at_cutoff: "0 < DAYS cfg \<longrightarrow> parseDateDeterministic (tza cfg) (dateStr_of r) = Some (d, k) \<longrightarrow>
        getTime d = now - DAYS cfg * 86400 * 1000 \<longrightarrow> days_filter cfg now [r] = [r]"
    by (simp add: days_filter_def keep_iff)
  have older: "0 < DAYS cfg \<longrightarrow> parseDateDeterministic (tza cfg) (dateStr_of r) = Some (d, k) \<longrightarrow>
        getTime d = now - DAYS cfg * 86400 * 1000 - 1000 \<longrightarrow> days_filter cfg now [r] = []"
    by (simp add: days_filter_def keep_iff)
  have unresolved: "0 < DAYS cfg \<longrightarrow> parseDateDeterministic (tza cfg) (dateStr_of r) = None \<longrightarrow>
        days_filter cfg now [r] = []"
    by (simp add: days_filter_def keep_iff)
  from window off at_cutoff older unresolved show ?thesis by blast
qed

lemma jan5_ms: "new_Date 0 2026 0 5 = 1767571200000"
  by (simp add: new_Date_def MakeDay_def DayFromYear_def DaysBeforeMonth_def InLeapYear_def
      msPerDay_def)

lemma dateStr_5_1_26: "dateStr_of [(''Date'', ''5/1/26'')] = ''5/1/26''"
  by (simp add: dateStr_of_def mapSheetRowToTemplateFields_def normalize_def toLowerCase_def
      trim_def isWhiteSpace_def js_or_def truthy_def the_str_def)

theorem retention_window_witness:
  "days_filter \<lparr>OUTPUT_DIR = ''/out'', FORCE = False, DRY = False, DAYS = 7, tza = 0,
                render = (\<lambda>tpl data. Some tpl)\<rparr> 1768176000000 [[(''Date'', ''5/1/26'')]]
     = [[(''Date'', ''5/1/26'')]]
   \<and> days_filter \<lparr>OUTPUT_DIR = ''/out'', FORCE = False, DRY = False, DAYS = 7, tza = 0,
                render = (\<lambda>tpl data. Some tpl)\<rparr> 1768176001000 [[(''Date'', ''5/1/26'')]]
     = []
   \<and> days_filter \<lparr>OUTPUT_DIR = ''/out'', FORCE = False, DRY = False, DAYS = 0, tza = 0,
                render = (\<lambda>tpl data. Some tpl)\<rparr> 1768176001000 [[(''Date'', ''5/1/26'')]]
     = [[(''Date'', ''5/1/26'')]]"
proof -
  have p: "parseDateDeterministic 0 (dateStr_of [(''Date'', ''5/1/26'')]) = Some (1767571200000, DMY)"
    by (simp add: dateStr_5_1_26 parse_5_1_26 jan5_ms)
  have a: "days_filter \<lparr>OUTPUT_DIR = ''/out'', FORCE = False, DRY = False, DAYS = 7, tza = 0,
                render = (\<lambda>tpl data. Some tpl)\<rparr> 1768176000000 [[(''Date'', ''5/1/26'')]]
     = [[(''Date'', ''5/1/26'')]]"
    using p retention_window
      [of "\<lparr>OUTPUT_DIR = ''/out'', FORCE = False, DRY = False, DAYS = 7, tza = 0,
                render = (\<lambda>tpl data. Some tpl)\<rparr>" 1768176000000 "[]"
          "[(''Date'', ''5/1/26'')]" 1767571200000 DMY]
    by (simp add: getTime_def)
  have b: "days_filter \<lparr>OUTPUT_DIR = ''/out'', FORCE = False, DRY = False, DAYS = 7, tza = 0,
                render = (\<lambda>tpl data. Some tpl)\<rparr> 1768176001000 [[(''Date'', ''5/1/26'')]]
     = []"
    using p retention_window
      [of "\<lparr>OUTPUT_DIR = ''/out'', FORCE = False, DRY = False, DAYS = 7, tza = 0,
                render = (\<lambda>tpl data. Some tpl)\<rparr>" 1768176001000 "[]"
          "[(''Date'', ''5/1/26'')]" 1767571200000 DMY]
    by (simp add: getTime_def)
  have c: "days_filter \<lparr>OUTPUT_DIR = ''/out'', FORCE = False, DRY = False, DAYS = 0, tza = 0,
                render = (\<lambda>tpl data. Some tpl)\<rparr> 1768176001000 [[(''Date'', ''5/1/26'')]]
     = [[(''Date'', ''5/1/26'')]]"
    using retention_window
      [of "\<lparr>OUTPUT_DIR = ''/out'', FORCE = False, DRY = False, DAYS = 0, tza = 0,
                render = (\<lambda>tpl data. Some tpl)\<rparr>" 1768176001000 "[[(''Date'', ''5/1/26'')]]"]
    by simp
  from a b c show ?thesis by blast
qed


section \<open>Resolution and the cutoff\<close>

lemma may1_ms: "new_Date 0 2026 4 1 = 1777593600000"
  by (simp add: new_Date_def MakeDay_def DayFromYear_def DaysBeforeMonth_def InLeapYear_def
      msPerDay_def)

lemma candidates_05_01_2026:
  "numeric_candidates 0 ''05/01/2026'' = [(dmy, 1767571200000), (mdy, 1777593600000)]"
proof -
  have m: "match_parts ''05/01/2026'' = Some (''05'', ''01'', ''2026'')"
    by (simp add: match_parts_def isDigit_def isSep_def)
  have n: "Number ''05'' = 5" "Number ''01'' = 1" "Number ''2026'' = 2026"
    by (simp_all add: Number_def)
  have "numeric_candidates 0 ''05/01/2026'' = [(dmy, new_Date 0 2026 0 5), (mdy, new_Date 0 2026 4 1)]"
    by (simp add: numeric_candidates_def m n same_parts_valid DaysInMonth_def InLeapYear_def)
  then show ?thesis
    by (simp add: jan5_ms may1_ms)
qed

lemma trim_05_01_2026: "trim ''05/01/2026'' = ''05/01/2026''"
  by (simp add: trim_def isWhiteSpace_def)

lemma getters_new_Date:
  "getFullYear tz (new_Date tz y m d)
     = YearFromDay (MakeDay (if 0 \<le> y \<and> y \<le> 99 then 1900 + y else y) m d)"
  "getMonth tz (new_Date tz y m d)
     = MonthFromDay (MakeDay (if 0 \<le> y \<and> y \<le> 99 then 1900 + y else y) m d)"
  "getDate tz (new_Date tz y m d)
     = DateFromDay (MakeDay (if 0 \<le> y \<and> y \<le> 99 then 1900 + y else y) m d)"
  by (simp_all add: getFullYear_def getMonth_def getDate_def LocalDay_new_Date)

lemma parse_dmy_zone:
  "map_option (\<lambda>(d, k). (getFullYear tz d, getMonth tz d + 1, getDate tz d, k)) (parse_dmy tz m)
   = map_option (\<lambda>(d, k). (getFullYear tz' d, getMonth tz' d + 1, getDate tz' d, k)) (parse_dmy tz' m)"
  by (cases m) (simp add: parse_dmy_def Let_def same_parts_new_Date getters_new_Date)

lemma parse_iso_zone:
  "map_option (\<lambda>(d, k). (getFullYear tz d, getMonth tz d + 1, getDate tz d, k)) (parse_iso tz m)
   = map_option (\<lambda>(d, k). (getFullYear tz' d, getMonth tz' d + 1, getDate tz' d, k)) (parse_iso tz' m)"
  by (cases m) (simp add: parse_iso_def Let_def same_parts_new_Date getters_new_Date)

lemma parse_text_zone:
  "map_option (\<lambda>(d, k). (getFullYear tz d, getMonth tz d + 1, getDate tz d, k)) (parse_text tz a b c)
   = map_option (\<lambda>(d, k). (getFullYear tz' d, getMonth tz' d + 1, getDate tz' d, k)) (parse_text tz' a b c)"
  by (simp add: parse_text_def Let_def same_parts_new_Date getters_new_Date split: option.splits)

lemma parse_text_none: "parse_text tz a b c = None \<longleftrightarrow> parse_text tz' a b c = None"
  by (simp add: parse_text_def Let_def same_parts_new_Date split: option.splits)

lemma parse_textual_zone:
  "map_option (\<lambda>(d, k). (getFullYear tz d, getMonth tz d + 1, getDate tz d, k)) (parse_textual tz str)
   = map_option (\<lambda>(d, k). (getFullYear tz' d, getMonth tz' d + 1, getDate tz' d, k)) (parse_textual tz' str)"
proof (cases "match_day_month (cleaned_of str)")
  case None
  then show ?thesis
    by (simp add: parse_textual_def parse_text_zone [of tz _ _ _ tz'] split: option.splits)
next
  case (Some m)
  obtain g1 g2 g3 where m: "m = (g1, g2, g3)" by (cases m) auto
  show ?thesis
  proof (cases "parse_text tz g1 g2 g3")
    case None
    then have "parse_text tz' g1 g2 g3 = None" using parse_text_none by blast
    with None Some m show ?thesis
      by (simp add: parse_textual_def parse_text_zone [of tz _ _ _ tz'] split: option.splits)
  next
    case (Some r)
    then obtain r' where r': "parse_text tz' g1 g2 g3 = Some r'"
      using parse_text_none [of tz g1 g2 g3 tz'] by auto
    from Some r' \<open>match_day_month (cleaned_of str) = Some m\<close> m
      parse_text_zone [of tz g1 g2 g3 tz']
    show ?thesis
      by (simp add: parse_textual_def)
  qed
qed

lemma parseDateDeterministic_zone:
  "map_option (\<lambda>(d, k). (getFullYear tz d, getMonth tz d + 1, getDate tz d, k)) (parseDateDeterministic tz s)
   = map_option (\<lambda>(d, k). (getFullYear tz' d, getMonth tz' d + 1, getDate tz' d, k)) (parseDateDeterministic tz' s)"
  by (simp add: parseDateDeterministic_def Let_def parse_dmy_zone [of tz _ tz']
      parse_iso_zone [of tz _ tz'] parse_textual_zone [of tz _ tz'] split: option.splits)

lemma chosen_default:
  assumes "find_kind dmy (candidates (parseDateCandidates np tz s)) = Some a"
  shows "date (parseDateCandidates np tz s) = Some (snd a)"
    and "chosenKind (parseDateCandidates np tz s) = Some dmy"
  using assms
  by (auto simp: parseDateCandidates_def Let_def find_kind_def split: if_splits list.splits option.splits)

lemma chosen_of_both:
  assumes "find_kind dmy (candidates (parseDateCandidates np tz s)) = Some a"
    and "find_kind mdy (candidates (parseDateCandidates np tz s)) = Some b"
  shows "chosen_of np tz c s =
           (if getTime (snd a) < c \<and> c \<le> getTime (snd b) then (Some (snd b), Some mdy)
            else (Some (snd a), Some dmy))"
  using assms chosen_default [OF assms(1)]
  by (auto simp: chosen_of_def Let_def)

lemma chosen_of_not_both:
  assumes "find_kind dmy (candidates (parseDateCandidates np tz s)) = None
         \<or> find_kind mdy (candidates (parseDateCandidates np tz s)) = None"
  shows "chosen_of np tz c s = (date (parseDateCandidates np tz s), chosenKind (parseDateCandidates np tz s))"
  using assms by (auto simp: chosen_of_def Let_def split: option.splits)

text \<open>The cutoffs used below are 1 January, 1 February and 1 June 2026, in UTC.\<close>

lemma cutoffs_2026:
  "new_Date 0 2026 0 1 = 1767225600000"
  "new_Date 0 2026 1 1 = 1769904000000"
  "new_Date 0 2026 5 1 = 1780272000000"
  by (simp_all add: new_Date_def MakeDay_def DayFromYear_def DaysBeforeMonth_def InLeapYear_def
      msPerDay_def)

text \<open>
  C4, as stated: the resolved date and kind of a raw string are the same under any two
  retention cutoffs. The heuristic generator breaks the tie between the day-first and the
  month-first reading with the cutoff of the run: for \<open>05/01/2026\<close> both readings are
  valid; with the cutoff 1 January 2026 both lie in the window and the day-first reading,
  5 January, is chosen; with the cutoff 1 February 2026 only the month-first reading,
  1 May, lies in the window and is chosen. (Times are in milliseconds, the time zone is
  UTC, and the native parse reads the string month first, as Node.js does.)
\<close>

theorem cutoff_changes_resolution_counterexample:
  "chosen_of (\<lambda>str. Some 1777593600000) 0 1767225600000 ''05/01/2026''
     = (Some 1767571200000, Some dmy)
   \<and> chosen_of (\<lambda>str. Some 1777593600000) 0 1769904000000 ''05/01/2026''
     = (Some 1777593600000, Some mdy)"
  by (simp add: chosen_of_def parseDateCandidates_def trim_05_01_2026 candidates_05_01_2026
      find_kind_def getTime_def)

text \<open>
  C4, amended. In the deterministic generator the calendar date (year, month, day) and
  the kind resolved for a string are a function of the string alone: they are the same
  under any two time zone offsets of the process, and what the filter loop resolves for
  a row is the same in any two runs, whatever the window, the clock and the time zone of
  each run are. In the heuristic generator, when the string has both a day-first
  candidate \<open>a\<close> and a month-first candidate \<open>b\<close>, the month-first reading is chosen
  exactly when the cutoff lies after \<open>a\<close> and not after \<open>b\<close>, and the day-first reading
  otherwise; two cutoffs give the same date and kind if and only if the string does not
  have both candidates or the two cutoffs lie both inside or both outside that interval.
\<close>

theorem resolution_and_cutoff:
  "map_option (\<lambda>(d, k). (getFullYear tz d, getMonth tz d + 1, getDate tz d, k)) (parseDateDeterministic tz s)
     = map_option (\<lambda>(d, k). (getFullYear tz' d, getMonth tz' d + 1, getDate tz' d, k)) (parseDateDeterministic tz' s)
   \<and> map_option (\<lambda>(d, k). (getFullYear (tza cfg) d, getMonth (tza cfg) d + 1, getDate (tza cfg) d, k)) (fst (snd (row_debug cfg now r)))
     = map_option (\<lambda>(d, k). (getFullYear (tza cfg') d, getMonth (tza cfg') d + 1, getDate (tza cfg') d, k)) (fst (snd (row_debug cfg' now' r)))
   \<and> (\<forall>a b. find_kind dmy (candidates (parseDateCandidates np tz s)) = Some a
          \<and> find_kind mdy (candidates (parseDateCandidates np tz s)) = Some b
        \<longrightarrow> chosen_of np tz cutoff s =
              (if getTime (snd a) < cutoff \<and> cutoff \<le> getTime (snd b)
               then (Some (snd b), Some mdy) else (Some (snd a), Some dmy)))
   \<and> (chosen_of np tz cutoff s = chosen_of np tz cutoff' s \<longleftrightarrow>
        (\<forall>a b. find_kind dmy (candidates (parseDateCandidates np tz s)) = Some a
            \<and> find_kind mdy (candidates (parseDateCandidates np tz s)) = Some b
          \<longrightarrow> (getTime (snd a) < cutoff \<and> cutoff \<le> getTime (snd b))
                = (getTime (snd a) < cutoff' \<and> cutoff' \<le> getTime (snd b))))"
proof -
  have zone: "map_option (\<lambda>(d, k). (getFullYear tz d, getMonth tz d + 1, getDate tz d, k)) (parseDateDeterministic tz s)
     = map_option (\<lambda>(d, k). (getFullYear tz' d, getMonth tz' d + 1, getDate tz' d, k)) (parseDateDeterministic tz' s)"
    by (rule parseDateDeterministic_zone)
  have run: "map_option (\<lambda>(d, k). (getFullYear (tza cfg) d, getMonth (tza cfg) d + 1, getDate (tza cfg) d, k)) (fst (snd (row_debug cfg now r)))
     = map_option (\<lambda>(d, k). (getFullYear (tza cfg') d, getMonth (tza cfg') d + 1, getDate (tza cfg') d, k)) (fst (snd (row_debug cfg' now' r)))"
    unfolding row_debug_def fst_conv snd_conv by (rule parseDateDeterministic_zone)
  have both: "\<forall>a b. find_kind dmy (candidates (parseDateCandidates np tz s)) = Some a
          \<and> find_kind mdy (candidates (parseDateCandidates np tz s)) = Some b
        \<longrightarrow> chosen_of np tz cutoff s =
              (if getTime (snd a) < cutoff \<and> cutoff \<le> getTime (snd b)
               then (Some (snd b), Some mdy) else (Some (snd a), Some dmy))"
    using chosen_of_both by blast
  have iff: "chosen_of np tz cutoff s = chosen_of np tz cutoff' s \<longleftrightarrow>
        (\<forall>a b. find_kind dmy (candidates (parseDateCandidates np tz s)) = Some a
            \<and> find_kind mdy (candidates (parseDateCandidates np tz s)) = Some b
          \<longrightarrow> (getTime (snd a) < cutoff \<and> cutoff \<le> getTime (snd b))
                = (getTime (snd a) < cutoff' \<and> cutoff' \<le> getTime (snd b)))"
  proof (cases "find_kind dmy (candidates (parseDateCandidates np tz s))")
    case None
    then show ?thesis
      by (simp add: chosen_of_not_both)
  next
    case dmyC: (Some a)
    show ?thesis
    proof (cases "find_kind mdy (candidates (parseDateCandidates np tz s))")
      case None
      then show ?thesis
        by (simp add: chosen_of_not_both)
    next
      case mdyC: (Some b)
      have lhs: "chosen_of np tz cutoff s = chosen_of np tz cutoff' s \<longleftrightarrow>
          (getTime (snd a) < cutoff \<and> cutoff \<le> getTime (snd b))
            = (getTime (snd a) < cutoff' \<and> cutoff' \<le> getTime (snd b))"
        unfolding chosen_of_both [OF dmyC mdyC] by auto
      have rhs: "(\<forall>a b. find_kind dmy (candidates (parseDateCandidates np tz s)) = Some a
            \<and> find_kind mdy (candidates (parseDateCandidates np tz s)) = Some b
          \<longrightarrow> (getTime (snd a) < cutoff \<and> cutoff \<le> getTime (snd b))
                = (getTime (snd a) < cutoff' \<and> cutoff' \<le> getTime (snd b)))
        \<longleftrightarrow> (getTime (snd a) < cutoff \<and> cutoff \<le> getTime (snd b))
            = (getTime (snd a) < cutoff' \<and> cutoff' \<le> getTime (snd b))"
        unfolding dmyC mdyC by (cases a; cases b; simp)
      show ?thesis
        unfolding lhs rhs by (rule refl)
    qed
  qed
  from zone run both iff show ?thesis by (intro conjI)
qed

theorem resolution_and_cutoff_witness:
  "find_kind dmy (candidates (parseDateCandidates (\<lambda>str. Some 1777593600000) 0 ''05/01/2026''))
     = Some (dmy, 1767571200000)
   \<and> find_kind mdy (candidates (parseDateCandidates (\<lambda>str. Some 1777593600000) 0 ''05/01/2026''))
     = Some (mdy, 1777593600000)
   \<and> chosen_of (\<lambda>str. Some 1777593600000) 0 1767225600000 ''05/01/2026''
       = chosen_of (\<lambda>str. Some 1777593600000) 0 1780272000000 ''05/01/2026''
   \<and> chosen_of (\<lambda>str. Some 1777593600000) 0 1767225600000 ''05/01/2026''
       = (Some 1767571200000, Some dmy)
   \<and> map_option (\<lambda>(d, k). (getFullYear 0 d, getMonth 0 d + 1, getDate 0 d, k))
       (parseDateDeterministic 0 ''05/01/2026'')
     = Some (2026, 1, 5, DMY)
   \<and> map_option (\<lambda>(d, k). (getFullYear 3600000 d, getMonth 3600000 d + 1, getDate 3600000 d, k))
       (parseDateDeterministic 3600000 ''05/01/2026'')
     = Some (2026, 1, 5, DMY)"
proof -
  note T = resolution_and_cutoff
    [where tz = 0 and tz' = 3600000 and s = "''05/01/2026''"
       and np = "\<lambda>str. Some 1777593600000"
       and cutoff = 1767225600000 and cutoff' = 1780272000000
       and cfg = "\<lparr>OUTPUT_DIR = ''/out'', FORCE = False, DRY = False, DAYS = 7, tza = 0,
           render = (\<lambda>tpl data. Some tpl)\<rparr>"
       and cfg' = "\<lparr>OUTPUT_DIR = ''/out'', FORCE = False, DRY = False, DAYS = 300, tza = 3600000,
           render = (\<lambda>tpl data. Some tpl)\<rparr>"
       and now = 1768176000000 and now' = 1800000000000 and r = "[(''Date'', ''5/1/26'')]"]
  have d: "find_kind dmy (candidates (parseDateCandidates (\<lambda>str. Some 1777593600000) 0 ''05/01/2026''))
     = Some (dmy, 1767571200000)"
    and m: "find_kind mdy (candidates (parseDateCandidates (\<lambda>str. Some 1777593600000) 0 ''05/01/2026''))
     = Some (mdy, 1777593600000)"
    by (simp_all add: parseDateCandidates_def trim_05_01_2026 candidates_05_01_2026 find_kind_def)
  have z: "map_option (\<lambda>(d, k). (getFullYear 0 d, getMonth 0 d + 1, getDate 0 d, k))
       (parseDateDeterministic 0 ''05/01/2026'')
     = Some (2026, 1, 5, DMY)"
    by (simp add: parse_05_01_2026 getters_valid DaysInMonth_def InLeapYear_def)
  have z': "map_option (\<lambda>(d, k). (getFullYear 3600000 d, getMonth 3600000 d + 1, getDate 3600000 d, k))
       (parseDateDeterministic 3600000 ''05/01/2026'')
     = Some (2026, 1, 5, DMY)"
    by (rule trans [OF T [THEN conjunct1, symmetric] z])
  have eq: "chosen_of (\<lambda>str. Some 1777593600000) 0 1767225600000 ''05/01/2026''
       = chosen_of (\<lambda>str. Some 1777593600000) 0 1780272000000 ''05/01/2026''"
    unfolding T [THEN conjunct2, THEN conjunct2, THEN conjunct2] d m
    by (simp add: getTime_def)
  have v: "chosen_of (\<lambda>str. Some 1777593600000) 0 1767225600000 ''05/01/2026''
       = (Some 1767571200000, Some dmy)"
    using T [THEN conjunct2, THEN conjunct2, THEN conjunct1] d m
    by (simp add: getTime_def)
  from d m eq v z z' show ?thesis by (intro conjI)
qed


section \<open>Pruning\<close>

lemma prune_loop_unlink:
  "prune_loop False fails ds (es, logs) =
     (filter (\<lambda>e. \<not> (fst e \<in> fst ` set ds \<and> fst e \<notin> fails)) es,
      logs @ map (\<lambda>f. if fst f \<in> fails then FailedToDelete (fst f) else Pruned (fst f)) ds)"
proof (induction ds arbitrary: es logs)
  case Nil
  then show ?case by simp
next
  case (Cons f ds)
  show ?case
  proof (cases "fst f \<in> fails")
    case True
    have "filter (\<lambda>e. \<not> (fst e \<in> fst ` set (f # ds) \<and> fst e \<notin> fails)) es
        = filter (\<lambda>e. \<not> (fst e \<in> fst ` set ds \<and> fst e \<notin> fails)) es"
      using True by (intro filter_cong) auto
    with True Cons.IH show ?thesis by simp
  next
    case False
    have "filter (\<lambda>e. \<not> (fst e \<in> fst ` set ds \<and> fst e \<notin> fails)) (filter (\<lambda>e. fst e \<noteq> fst f) es)
        = filter (\<lambda>e. \<not> (fst e \<in> fst ` set (f # ds) \<and> fst e \<notin> fails)) es"
      using False unfolding filter_filter by (intro filter_cong) auto
    with False Cons.IH show ?thesis by simp
  qed
qed

lemma prune_loop_dry:
  "prune_loop True fails ds (es, logs) = (es, logs @ map (\<lambda>f. WouldPrune (fst f)) ds)"
  by (induction ds arbitrary: logs) simp_all

lemma newest_first:
  "\<forall>a \<in> set (take n (docx_files es)). \<forall>b \<in> set (drop n (docx_files es)).
     mtimeMs (snd b) \<le> mtimeMs (snd a)"
proof -
  let ?k = "\<lambda>f :: string \<times> entry. - mtimeMs (snd f)"
  have "sorted (map ?k (docx_files es))"
    unfolding docx_files_def by (rule sorted_sort_key)
  then have "sorted (map ?k (take n (docx_files es)) @ map ?k (drop n (docx_files es)))"
    by (simp flip: map_append)
  then have "\<forall>x \<in> set (map ?k (take n (docx_files es))). \<forall>y \<in> set (map ?k (drop n (docx_files es))). x \<le> y"
    unfolding sorted_append by blast
  then show ?thesis by auto
qed

lemma set_docx_files:
  "set (docx_files es) = {e \<in> set es. endsWith (toLowerCase (fst e)) ''.docx''}"
  by (auto simp: docx_files_def)

lemma distinct_docx_files:
  assumes "distinct (map fst es)"
  shows "distinct (map fst (docx_files es))"
proof -
  have "mset (map fst (docx_files es))
      = mset (map fst (filter (\<lambda>f. endsWith (toLowerCase (fst f)) ''.docx'') es))"
    by (simp add: docx_files_def)
  moreover have "distinct (map fst (filter (\<lambda>f. endsWith (toLowerCase (fst f)) ''.docx'') es))"
    using assms by (rule distinct_map_filter)
  ultimately show ?thesis
    by (metis mset_eq_imp_distinct_iff)
qed

lemma filter_not_dropped:
  assumes "distinct (map fst xs)"
  shows "filter (\<lambda>e. fst e \<notin> fst ` set (drop n xs)) xs = take n xs"
proof -
  have d: "distinct (map fst (take n xs) @ map fst (drop n xs))"
    using assms by (simp flip: map_append)
  then have disj: "fst ` set (take n xs) \<inter> fst ` set (drop n xs) = {}"
    by simp
  have a: "filter (\<lambda>e. fst e \<notin> fst ` set (drop n xs)) (take n xs) = take n xs"
    using disj by (intro filter_True) blast
  have b: "filter (\<lambda>e. fst e \<notin> fst ` set (drop n xs)) (drop n xs) = []"
    by (intro filter_False) blast
  have "filter (\<lambda>e. fst e \<notin> fst ` set (drop n xs)) (take n xs @ drop n xs) = take n xs"
    unfolding filter_append a b by simp
  then show ?thesis by simp
qed

lemma docx_files_filter:
  "docx_files (filter Q es) = filter Q (docx_files es)"
  unfolding docx_files_def filter_sort filter_filter
  by (rule arg_cong [where f = "sort_key _"], rule filter_cong) auto


text \<open>
  C9. The prune operation is \<open>pruneOutputDir\<close> of the second sheet script;
  \<open>fillFromSheet.js\<close> reads \<open>--prune\<close> into \<open>PRUNE_N\<close> and has no prune operation. The
  artifacts are the entries of the output directory whose name ends in \<open>.docx\<close> (in any
  case), ordered by modification time, newest first; \<open>K > 0\<close> is the retain count and
  the directory exists. Prune unlinks every artifact beyond the first \<open>K\<close> of that
  order, there are \<open>N - K\<close> of them and none is newer than any of the \<open>K\<close> kept; an
  entry whose unlink throws stays, the failure is logged and the loop goes on with the
  next one; when no unlink throws (and names are distinct, as in a directory) the
  artifacts left are exactly the \<open>K\<close> newest and every other entry is untouched. With
  \<open>N \<le> K\<close> nothing is deleted and nothing is logged. This is the operation outside a
  dry run; a dry run, which never touches the file system, leaves the directory as it is
  and logs what would be pruned.
\<close>

theorem prune_keeps_newest:
  assumes "0 < K" and "outdir fs = Some es"
  shows "(\<not> DRY cfg \<longrightarrow>
            pruneOutputDir cfg K fs =
              (fs\<lparr>outdir := Some (filter (\<lambda>e. \<not> (fst e \<in> fst ` set (drop (nat K) (docx_files es))
                                                 \<and> fst e \<notin> unlink_fails fs)) es)\<rparr>,
               map (\<lambda>f. if fst f \<in> unlink_fails fs then FailedToDelete (fst f) else Pruned (fst f))
                 (drop (nat K) (docx_files es))))
       \<and> (DRY cfg \<longrightarrow>
            pruneOutputDir cfg K fs = (fs, map (\<lambda>f. WouldPrune (fst f)) (drop (nat K) (docx_files es))))
       \<and> (length (docx_files es) \<le> nat K \<longrightarrow> pruneOutputDir cfg K fs = (fs, []))
       \<and> set (docx_files es) = {e \<in> set es. endsWith (toLowerCase (fst e)) ''.docx''}
       \<and> length (drop (nat K) (docx_files es)) = length (docx_files es) - nat K
       \<and> (\<forall>a \<in> set (take (nat K) (docx_files es)). \<forall>b \<in> set (drop (nat K) (docx_files es)).
             mtimeMs (snd b) \<le> mtimeMs (snd a))
       \<and> (\<not> DRY cfg \<longrightarrow> unlink_fails fs = {} \<longrightarrow> distinct (map fst es) \<longrightarrow>
            (\<exists>es'. outdir (fst (pruneOutputDir cfg K fs)) = Some es'
                 \<and> docx_files es' = take (nat K) (docx_files es)
                 \<and> filter (\<lambda>e. \<not> endsWith (toLowerCase (fst e)) ''.docx'') es'
                    = filter (\<lambda>e. \<not> endsWith (toLowerCase (fst e)) ''.docx'') es))"
proof -
  let ?files = "docx_files es"
  let ?del = "drop (nat K) ?files"
  have same: "fs\<lparr>outdir := Some es\<rparr> = fs"
    using assms(2) by simp
  have few: "pruneOutputDir cfg K fs = (fs, [])" if "length ?files \<le> nat K"
  proof -
    from that assms(1) have "int (length ?files) \<le> K" by linarith
    then show ?thesis using assms by (simp add: pruneOutputDir_def Let_def)
  qed
  have real: "pruneOutputDir cfg K fs =
      (fs\<lparr>outdir := Some (filter (\<lambda>e. \<not> (fst e \<in> fst ` set ?del \<and> fst e \<notin> unlink_fails fs)) es)\<rparr>,
       map (\<lambda>f. if fst f \<in> unlink_fails fs then FailedToDelete (fst f) else Pruned (fst f)) ?del)"
    if "\<not> DRY cfg"
  proof (cases "length ?files \<le> nat K")
    case True
    then show ?thesis using few same by simp
  next
    case False
    then have "\<not> int (length ?files) \<le> K" using assms(1) by linarith
    then show ?thesis
      using assms that by (simp add: pruneOutputDir_def Let_def prune_loop_unlink)
  qed
  have dryrun: "pruneOutputDir cfg K fs = (fs, map (\<lambda>f. WouldPrune (fst f)) ?del)" if "DRY cfg"
  proof (cases "length ?files \<le> nat K")
    case True
    then show ?thesis using few by simp
  next
    case False
    then have "\<not> int (length ?files) \<le> K" using assms(1) by linarith
    then show ?thesis
      using assms that same by (simp add: pruneOutputDir_def Let_def prune_loop_dry)
  qed
  have exact: "\<exists>es'. outdir (fst (pruneOutputDir cfg K fs)) = Some es'
         \<and> docx_files es' = take (nat K) ?files
         \<and> filter (\<lambda>e. \<not> endsWith (toLowerCase (fst e)) ''.docx'') es'
            = filter (\<lambda>e. \<not> endsWith (toLowerCase (fst e)) ''.docx'') es"
    if nd: "\<not> DRY cfg" and nf: "unlink_fails fs = {}" and dist: "distinct (map fst es)"
  proof -
    let ?es' = "filter (\<lambda>e. fst e \<notin> fst ` set ?del) es"
    have out: "outdir (fst (pruneOutputDir cfg K fs)) = Some ?es'"
      using real [OF nd] nf by simp
    have "docx_files ?es' = filter (\<lambda>e. fst e \<notin> fst ` set ?del) ?files"
      by (rule docx_files_filter)
    also have "\<dots> = take (nat K) ?files"
      using distinct_docx_files [OF dist] by (rule filter_not_dropped)
    finally have kept: "docx_files ?es' = take (nat K) ?files" .
    have "fst ` set ?del \<subseteq> fst ` set ?files"
      using set_drop_subset [of "nat K" ?files] by blast
    then have names: "endsWith (toLowerCase n) ''.docx''" if "n \<in> fst ` set ?del" for n
      using that set_docx_files [of es] by auto
    have others: "filter (\<lambda>e. \<not> endsWith (toLowerCase (fst e)) ''.docx'') ?es'
        = filter (\<lambda>e. \<not> endsWith (toLowerCase (fst e)) ''.docx'') es"
      unfolding filter_filter using names by (intro filter_cong) auto
    from out kept others show ?thesis by blast
  qed
  from real dryrun few set_docx_files [of es] newest_first [of "nat K" es] exact
  show ?thesis by (simp add: few)
qed


theorem prune_keeps_newest_witness:
  "pruneOutputDir
     \<lparr>OUTPUT_DIR = ''/out'', FORCE = False, DRY = False, DAYS = 7, tza = 0,
      render = (\<lambda>tpl data. Some tpl)\<rparr>
     2
     \<lparr>template = Some ''template'',
      outdir = Some [(''a.docx'', \<lparr>content = ''a'', mtimeMs = 1000\<rparr>),
                     (''b.DOCX'', \<lparr>content = ''b'', mtimeMs = 4000\<rparr>),
                     (''notes.txt'', \<lparr>content = ''c'', mtimeMs = 0\<rparr>),
                     (''d.docx'', \<lparr>content = ''d'', mtimeMs = 3000\<rparr>),
                     (''e.docx'', \<lparr>content = ''e'', mtimeMs = 2000\<rparr>),
                     (''f.docx'', \<lparr>content = ''f'', mtimeMs = 500\<rparr>)],
      write_fails = {}, unlink_fails = {''e.docx''}\<rparr>
   = (\<lparr>template = Some ''template'',
      outdir = Some [(''b.DOCX'', \<lparr>content = ''b'', mtimeMs = 4000\<rparr>),
                     (''notes.txt'', \<lparr>content = ''c'', mtimeMs = 0\<rparr>),
                     (''d.docx'', \<lparr>content = ''d'', mtimeMs = 3000\<rparr>),
                     (''e.docx'', \<lparr>content = ''e'', mtimeMs = 2000\<rparr>)],
      write_fails = {}, unlink_fails = {''e.docx''}\<rparr>,
      [FailedToDelete ''e.docx'', Pruned ''a.docx'', Pruned ''f.docx''])"
proof -
  have files: "docx_files [(''a.docx'', \<lparr>content = ''a'', mtimeMs = 1000\<rparr>),
                     (''b.DOCX'', \<lparr>content = ''b'', mtimeMs = 4000\<rparr>),
                     (''notes.txt'', \<lparr>content = ''c'', mtimeMs = 0\<rparr>),
                     (''d.docx'', \<lparr>content = ''d'', mtimeMs = 3000\<rparr>),
                     (''e.docx'', \<lparr>content = ''e'', mtimeMs = 2000\<rparr>),
                     (''f.docx'', \<lparr>content = ''f'', mtimeMs = 500\<rparr>)]
     = [(''b.DOCX'', \<lparr>content = ''b'', mtimeMs = 4000\<rparr>),
        (''d.docx'', \<lparr>content = ''d'', mtimeMs = 3000\<rparr>),
        (''e.docx'', \<lparr>content = ''e'', mtimeMs = 2000\<rparr>),
        (''a.docx'', \<lparr>content = ''a'', mtimeMs = 1000\<rparr>),
        (''f.docx'', \<lparr>content = ''f'', mtimeMs = 500\<rparr>)]"
    by (simp add: docx_files_def endsWith_def toLowerCase_def)
  have two: "nat 2 = Suc (Suc 0)" by simp
  show ?thesis
    using prune_keeps_newest
      [of 2
          "\<lparr>template = Some ''template'',
            outdir = Some [(''a.docx'', \<lparr>content = ''a'', mtimeMs = 1000\<rparr>),
                     (''b.DOCX'', \<lparr>content = ''b'', mtimeMs = 4000\<rparr>),
                     (''notes.txt'', \<lparr>content = ''c'', mtimeMs = 0\<rparr>),
                     (''d.docx'', \<lparr>content = ''d'', mtimeMs = 3000\<rparr>),
                     (''e.docx'', \<lparr>content = ''e'', mtimeMs = 2000\<rparr>),
                     (''f.docx'', \<lparr>content = ''f'', mtimeMs = 500\<rparr>)],
            write_fails = {}, unlink_fails = {''e.docx''}\<rparr>"
          "[(''a.docx'', \<lparr>content = ''a'', mtimeMs = 1000\<rparr>),
                     (''b.DOCX'', \<lparr>content = ''b'', mtimeMs = 4000\<rparr>),
                     (''notes.txt'', \<lparr>content = ''c'', mtimeMs = 0\<rparr>),
                     (''d.docx'', \<lparr>content = ''d'', mtimeMs = 3000\<rparr>),
                     (''e.docx'', \<lparr>content = ''e'', mtimeMs = 2000\<rparr>),
                     (''f.docx'', \<lparr>content = ''f'', mtimeMs = 500\<rparr>)]"
          "\<lparr>OUTPUT_DIR = ''/out'', FORCE = False, DRY = False, DAYS = 7, tza = 0,
            render = (\<lambda>tpl data. Some tpl)\<rparr>"]
    by (simp add: files two)
qed


end
